theory Spec2Isabelle
  imports Complex_Main "HOL-Library.Word"
begin

section \<open>Sticker maker: the raster-compositing core of \<open>addStickerOutline\<close>\<close>

text \<open>
  The development embeds \<open>addStickerOutline\<close> and the regeneration effect of
  \<open>ResultView\<close> (both in \<open>src/app/page.tsx\<close>; the second copy of the file has the same
  code with shorter variable names).

  Conventions of the embedding:
  \<^item> a JavaScript \<open>number\<close> is a \<open>real\<close>, without \<open>NaN\<close> or infinities. The sums that
    end in \<open>canvas.width\<close> and \<open>canvas.height\<close> are computed as the code computes them:
    every operation is rounded to the nearest double (\<open>fl\<close>), because the integer
    conversion of the two attributes makes the rounding visible. The geometry of the
    stamps, and the padding where only its order matters, use the exact value;
  \<^item> a bitmap holds 8-bit samples, premultiplied by alpha, as canvases do; what
    \<open>toBlob\<close> encodes are the samples read back with the alpha divided out;
  \<^item> the browser is a parameter: how an image is resampled at a fractional offset, how a
    shadow is blurred, how a CSS colour string is parsed, how a raster is encoded, and for
    which canvas sizes \<open>getContext\<close> and \<open>toBlob\<close> deliver, are fields of \<open>Platform\<close>;
  \<^item> what the Canvas 2D standard fixes is written out: the integer conversion of
    \<open>canvas.width\<close> and \<open>canvas.height\<close>, the Porter-Duff operators \<open>source-over\<close> and
    \<open>source-in\<close>, the order shadow-then-shape of a draw, the rectangle of \<open>fillRect\<close>,
    and that \<open>toBlob\<close> delivers nothing for a canvas without pixels.
\<close>

subsection \<open>Double arithmetic\<close>

text \<open>
  \<open>fl x\<close> is the double nearest to \<open>x\<close>, ties to the even mantissa: \<open>x\<close> is rounded on
  the grid of the multiples of \<open>2^u\<close>, where \<open>u\<close> is the exponent of the last of the 53
  bits of its binade (or of the subnormal numbers, below \<open>2^-1022\<close>). Overflow to infinity
  is not modelled.
\<close>

definition roundEven :: "real \<Rightarrow> int" where
  "roundEven y =
     (let f = \<lfloor>y\<rfloor>; d = y - of_int f in
      if d < 1 / 2 then f else if 1 / 2 < d then f + 1 else if even f then f else f + 1)"

definition ulpExp :: "real \<Rightarrow> int" where
  "ulpExp x = max \<lfloor>log 2 \<bar>x\<bar>\<rfloor> (- 1022) - 52"

definition toGrid :: "int \<Rightarrow> real \<Rightarrow> real" where
  "toGrid u y = of_int (roundEven (y / 2 powi u)) * 2 powi u"

definition fl :: "real \<Rightarrow> real" where
  "fl x = (if x = 0 then 0 else toGrid (ulpExp x) x)"

subsection \<open>Settings\<close>

datatype OutlineStyle = Solid | Wobbly | Chaotic | Wavy

datatype ShadowStyle = ShadowNone | Soft | Hard | Float

record WaveParams =
  freq :: real
  amp :: real

record StickerSettings =
  outlineWidth :: real
  outlineColor :: string
  outlineStyle :: OutlineStyle
  wave1 :: WaveParams
  wave2 :: WaveParams
  wave3 :: WaveParams
  masterAmp :: real
  shadowStyle :: ShadowStyle

text \<open>
  The table \<open>WAVE_DEFAULTS\<close> and \<open>DEFAULT_SETTINGS\<close>. A decimal literal of the source is
  the double nearest to it.
\<close>

fun WAVE_DEFAULTS :: "OutlineStyle \<Rightarrow> (WaveParams \<times> WaveParams \<times> WaveParams \<times> real) option" where
  "WAVE_DEFAULTS Solid = None"
| "WAVE_DEFAULTS Wobbly =
     Some (\<lparr>freq = 2, amp = fl (12 / 10)\<rparr>, \<lparr>freq = 35 / 10, amp = fl (8 / 10)\<rparr>,
           \<lparr>freq = 7, amp = fl (3 / 10)\<rparr>, 2)"
| "WAVE_DEFAULTS Chaotic =
     Some (\<lparr>freq = 4, amp = 15 / 10\<rparr>, \<lparr>freq = 9, amp = fl (12 / 10)\<rparr>,
           \<lparr>freq = 17, amp = fl (8 / 10)\<rparr>, 3)"
| "WAVE_DEFAULTS Wavy =
     Some (\<lparr>freq = 15 / 10, amp = fl (18 / 10)\<rparr>, \<lparr>freq = 25 / 10, amp = fl (6 / 10)\<rparr>,
           \<lparr>freq = 5, amp = fl (2 / 10)\<rparr>, 15 / 10)"

definition DEFAULT_SETTINGS :: StickerSettings where
  "DEFAULT_SETTINGS =
     \<lparr>outlineWidth = 8, outlineColor = ''#ffffff'', outlineStyle = Solid,
      wave1 = \<lparr>freq = 2, amp = fl (12 / 10)\<rparr>, wave2 = \<lparr>freq = 35 / 10, amp = fl (8 / 10)\<rparr>,
      wave3 = \<lparr>freq = 7, amp = fl (3 / 10)\<rparr>, masterAmp = 2, shadowStyle = ShadowNone\<rparr>"

subsection \<open>Samples, layers and the two compositing operators\<close>

text \<open>
  Four 8-bit samples. A colour (a fill style, a shadow colour, a pixel of a decoded
  image, a pixel of the encoded PNG) has straight channels; a pixel of a bitmap or of a
  layer that is painted has its channels premultiplied by its alpha. A layer is an
  unbounded grid of pixels.
\<close>

type_synonym byte = "8 word"

record RGBA =
  red :: byte
  green :: byte
  blue :: byte
  alpha :: byte

type_synonym Layer = "int \<times> int \<Rightarrow> RGBA"

definition transparent :: RGBA where
  "transparent = \<lparr>red = 0, green = 0, blue = 0, alpha = 0\<rparr>"

text \<open>The product of two samples as fractions of 255, rounded to the nearest sample.\<close>

definition mul255 :: "byte \<Rightarrow> byte \<Rightarrow> byte" where
  "mul255 a b = of_nat ((unat a * unat b + 127) div 255)"

definition addSat :: "byte \<Rightarrow> byte \<Rightarrow> byte" where
  "addSat a b = of_nat (min 255 (unat a + unat b))"

definition premultiply :: "RGBA \<Rightarrow> RGBA" where
  "premultiply col =
     \<lparr>red = mul255 (red col) (alpha col), green = mul255 (green col) (alpha col),
      blue = mul255 (blue col) (alpha col), alpha = alpha col\<rparr>"

text \<open>Reading a pixel back: the alpha is divided out, to the nearest sample.\<close>

definition unmul :: "byte \<Rightarrow> byte \<Rightarrow> byte" where
  "unmul c a = of_nat (min 255 ((unat c * 255 + unat a div 2) div unat a))"

definition straight :: "RGBA \<Rightarrow> RGBA" where
  "straight px =
     (if alpha px = 0 then transparent
      else \<lparr>red = unmul (red px) (alpha px), green = unmul (green px) (alpha px),
            blue = unmul (blue px) (alpha px), alpha = alpha px\<rparr>)"

datatype CompositeOp = SourceOver | SourceIn

text \<open>
  Porter-Duff compositing of a source pixel onto a backdrop pixel, both premultiplied.
  \<open>source-over\<close>: the source, plus the backdrop where the source leaves it visible.
  \<open>source-in\<close>: the source, scaled by the backdrop's alpha; the backdrop is dropped.
\<close>

definition blend :: "CompositeOp \<Rightarrow> RGBA \<Rightarrow> RGBA \<Rightarrow> RGBA" where
  "blend op src dst =
     (case op of
        SourceOver \<Rightarrow>
          (let k = 255 - alpha src in
           \<lparr>red = addSat (red src) (mul255 (red dst) k),
            green = addSat (green src) (mul255 (green dst) k),
            blue = addSat (blue src) (mul255 (blue dst) k),
            alpha = addSat (alpha src) (mul255 (alpha dst) k)\<rparr>)
      | SourceIn \<Rightarrow>
          \<lparr>red = mul255 (red src) (alpha dst), green = mul255 (green src) (alpha dst),
           blue = mul255 (blue src) (alpha dst), alpha = mul255 (alpha src) (alpha dst)\<rparr>)"

subsection \<open>The image, the platform, the canvas\<close>

record Image =
  imgWidth :: nat
  imgHeight :: nat
  imgData :: Layer

text \<open>
  What the browser decides: \<open>rasterise img dx dy\<close> is the layer that \<open>drawImage(img, dx, dy)\<close>
  paints before compositing (the image resampled with its top-left corner at \<open>(dx, dy)\<close>),
  \<open>castShadow colour blur ox oy layer\<close> is the shadow of a layer, \<open>cssColor\<close> parses a
  colour string (\<open>None\<close> for a string that is no colour), \<open>contextOk w h\<close> says that
  \<open>getContext("2d")\<close> returns a context for a canvas of \<open>w\<close> by \<open>h\<close> pixels,
  \<open>encoderOk w h\<close> that the browser can encode a canvas of that size, and
  \<open>pngEncode\<close> gives the bytes of the PNG for the rows of pixels it is handed.
\<close>

record Platform =
  rasterise :: "Image \<Rightarrow> real \<Rightarrow> real \<Rightarrow> Layer"
  castShadow :: "RGBA \<Rightarrow> real \<Rightarrow> real \<Rightarrow> real \<Rightarrow> Layer \<Rightarrow> Layer"
  cssColor :: "string \<Rightarrow> RGBA option"
  contextOk :: "int \<Rightarrow> int \<Rightarrow> bool"
  encoderOk :: "int \<Rightarrow> int \<Rightarrow> bool"
  pngEncode :: "RGBA list list \<Rightarrow> byte list"

text \<open>The canvas with the state of its 2D context.\<close>

record Canvas2D =
  cvWidth :: int
  cvHeight :: int
  bitmap :: Layer
  globalCompositeOperation :: CompositeOp
  fillStyle :: RGBA
  shadowColor :: RGBA
  shadowBlur :: real
  shadowOffsetX :: real
  shadowOffsetY :: real

text \<open>The alpha of a CSS colour, a number from 0 to 1, as a sample.\<close>

definition alphaByte :: "real \<Rightarrow> byte" where
  "alphaByte a = of_int (roundEven (255 * max 0 (min 1 a)))"

definition black :: "real \<Rightarrow> RGBA" where
  "black a = \<lparr>red = 0, green = 0, blue = 0, alpha = alphaByte a\<rparr>"

text \<open>
  \<open>document.createElement("canvas")\<close>: 300 by 150, transparent; a fresh context composites
  with \<open>source-over\<close>, fills with opaque black and casts no shadow.
\<close>

definition createCanvas :: Canvas2D where
  "createCanvas =
     \<lparr>cvWidth = 300, cvHeight = 150, bitmap = (\<lambda>_. transparent),
      globalCompositeOperation = SourceOver, fillStyle = black 1,
      shadowColor = transparent, shadowBlur = 0, shadowOffsetX = 0, shadowOffsetY = 0\<rparr>"

text \<open>
  \<open>canvas.width\<close> and \<open>canvas.height\<close> are attributes of type \<open>unsigned long\<close>. Assigning a
  number converts it: the fraction is dropped (towards zero) and the result is taken
  modulo \<open>2^32\<close>; a value above \<open>2147483647\<close> is replaced by the attribute's default.
  Assigning either attribute clears the bitmap.
\<close>

definition toUnsignedLong :: "real \<Rightarrow> int" where
  "toUnsignedLong x = (if 0 \<le> x then \<lfloor>x\<rfloor> else \<lceil>x\<rceil>) mod 4294967296"

definition reflectedDim :: "int \<Rightarrow> real \<Rightarrow> int" where
  "reflectedDim dflt x =
     (let n = toUnsignedLong x in if n \<le> 2147483647 then n else dflt)"

definition setWidth :: "real \<Rightarrow> Canvas2D \<Rightarrow> Canvas2D" where
  "setWidth x c = c\<lparr>cvWidth := reflectedDim 300 x, bitmap := (\<lambda>_. transparent)\<rparr>"

definition setHeight :: "real \<Rightarrow> Canvas2D \<Rightarrow> Canvas2D" where
  "setHeight x c = c\<lparr>cvHeight := reflectedDim 150 x, bitmap := (\<lambda>_. transparent)\<rparr>"

text \<open>Assigning \<open>fillStyle\<close> a string that is no colour leaves the attribute as it was.\<close>

definition setFillStyle :: "Platform \<Rightarrow> string \<Rightarrow> Canvas2D \<Rightarrow> Canvas2D" where
  "setFillStyle P str c =
     (case cssColor P str of None \<Rightarrow> c | Some col \<Rightarrow> c\<lparr>fillStyle := col\<rparr>)"

text \<open>
  Painting a layer: inside the canvas every pixel is composited with the current operator;
  nothing exists outside. When a shadow is set (a shadow colour that is not fully
  transparent, with a blur or an offset), the shadow of the layer is composited first.
\<close>

definition compositeLayer :: "Layer \<Rightarrow> Canvas2D \<Rightarrow> Canvas2D" where
  "compositeLayer A c =
     c\<lparr>bitmap := (\<lambda>(x, y).
          if 0 \<le> x \<and> x < cvWidth c \<and> 0 \<le> y \<and> y < cvHeight c
          then blend (globalCompositeOperation c) (A (x, y)) (bitmap c (x, y))
          else bitmap c (x, y))\<rparr>"

definition shadowsActive :: "Canvas2D \<Rightarrow> bool" where
  "shadowsActive c \<longleftrightarrow>
     alpha (shadowColor c) \<noteq> 0 \<and> (shadowBlur c \<noteq> 0 \<or> shadowOffsetX c \<noteq> 0 \<or> shadowOffsetY c \<noteq> 0)"

definition paintLayer :: "Platform \<Rightarrow> Layer \<Rightarrow> Canvas2D \<Rightarrow> Canvas2D" where
  "paintLayer P A c =
     compositeLayer A
       (if shadowsActive c
        then compositeLayer
               (castShadow P (shadowColor c) (shadowBlur c) (shadowOffsetX c) (shadowOffsetY c) A) c
        else c)"

definition drawImage :: "Platform \<Rightarrow> Image \<Rightarrow> real \<Rightarrow> real \<Rightarrow> Canvas2D \<Rightarrow> Canvas2D" where
  "drawImage P img dx dy c = paintLayer P (rasterise P img dx dy) c"

text \<open>
  The layer of \<open>fillRect(x, y, w, h)\<close>: the premultiplied fill colour, scaled by the share
  of the pixel's unit square that the rectangle covers.
\<close>

definition overlap :: "real \<Rightarrow> real \<Rightarrow> int \<Rightarrow> real" where
  "overlap lo hi p = max 0 (min hi (of_int p + 1) - max lo (of_int p))"

definition cover :: "real \<Rightarrow> byte \<Rightarrow> byte" where
  "cover share b = of_int (roundEven (share * real (unat b)))"

definition rectLayer :: "RGBA \<Rightarrow> real \<Rightarrow> real \<Rightarrow> real \<Rightarrow> real \<Rightarrow> Layer" where
  "rectLayer col x y w h =
     (\<lambda>(px, py).
        let share = overlap x (x + w) px * overlap y (y + h) py; pm = premultiply col in
        \<lparr>red = cover share (red pm), green = cover share (green pm),
         blue = cover share (blue pm), alpha = cover share (alpha pm)\<rparr>)"

definition fillRect :: "Platform \<Rightarrow> real \<Rightarrow> real \<Rightarrow> real \<Rightarrow> real \<Rightarrow> Canvas2D \<Rightarrow> Canvas2D" where
  "fillRect P x y w h c = paintLayer P (rectLayer (fillStyle c) x y w h) c"

subsection \<open>Canvas size\<close>

text \<open>
  The room for the wobble, the padding and the room for the shadow, first as the formulas
  read in exact arithmetic.
\<close>

definition wobbleExtra :: "StickerSettings \<Rightarrow> real" where
  "wobbleExtra s =
     (if outlineStyle s \<noteq> Solid
      then outlineWidth s * masterAmp s * (amp (wave1 s) + amp (wave2 s) + amp (wave3 s))
      else 0)"

definition outlinePad :: "StickerSettings \<Rightarrow> real" where
  "outlinePad s = max (outlineWidth s + wobbleExtra s + 4) 4"

definition shadowPad :: "StickerSettings \<Rightarrow> real" where
  "shadowPad s = (if shadowStyle s \<noteq> ShadowNone then 30 else 0)"

text \<open>
  The same two expressions as the code evaluates them, from left to right, every product
  and sum rounded to a double: \<open>(w * masterAmp) * ((amp1 + amp2) + amp3)\<close> and
  \<open>Math.max((w + wobbleExtra) + 4, 4)\<close>.
\<close>

definition wobbleExtraD :: "StickerSettings \<Rightarrow> real" where
  "wobbleExtraD s =
     (if outlineStyle s \<noteq> Solid
      then fl (fl (outlineWidth s * masterAmp s) *
               fl (fl (amp (wave1 s) + amp (wave2 s)) + amp (wave3 s)))
      else 0)"

definition outlinePadD :: "StickerSettings \<Rightarrow> real" where
  "outlinePadD s = max (fl (fl (outlineWidth s + wobbleExtraD s) + 4)) 4"

text \<open>
  \<open>fl\<close> rounds as if the exponent of a double had no upper bound. The statements about
  the canvas size are made for settings of moderate size: no intermediate result then
  comes near the largest double, and the code meets neither an infinity nor a NaN.
\<close>

definition moderateSettings :: "StickerSettings \<Rightarrow> bool" where
  "moderateSettings s \<longleftrightarrow>
     \<bar>outlineWidth s\<bar> \<le> 2 ^ 300 \<and> \<bar>masterAmp s\<bar> \<le> 2 ^ 300
   \<and> \<bar>amp (wave1 s)\<bar> \<le> 2 ^ 300 \<and> \<bar>amp (wave2 s)\<bar> \<le> 2 ^ 300
   \<and> \<bar>amp (wave3 s)\<bar> \<le> 2 ^ 300"

text \<open>
  The numbers assigned to \<open>canvas.width\<close> and \<open>canvas.height\<close>:
  \<open>(img.width + outlinePad * 2) + shadowPad\<close>, in doubles.
\<close>

definition requestedWidth :: "Image \<Rightarrow> StickerSettings \<Rightarrow> real" where
  "requestedWidth img s = fl (fl (real (imgWidth img) + fl (outlinePadD s * 2)) + shadowPad s)"

definition requestedHeight :: "Image \<Rightarrow> StickerSettings \<Rightarrow> real" where
  "requestedHeight img s = fl (fl (real (imgHeight img) + fl (outlinePadD s * 2)) + shadowPad s)"

definition sizedCanvas :: "Image \<Rightarrow> StickerSettings \<Rightarrow> Canvas2D" where
  "sizedCanvas img s =
     setHeight (requestedHeight img s) (setWidth (requestedWidth img s) createCanvas)"

subsection \<open>Drawing the cutout at an offset from the centre\<close>

definition cx :: "Canvas2D \<Rightarrow> real" where
  "cx c = real_of_int (cvWidth c) / 2"

definition cy :: "Canvas2D \<Rightarrow> real" where
  "cy c = real_of_int (cvHeight c) / 2"

text \<open>The position \<open>drawAt(ox, oy)\<close> hands to \<open>drawImage\<close>: the image's top-left corner.\<close>

definition drawPos :: "Image \<Rightarrow> Canvas2D \<Rightarrow> real \<times> real \<Rightarrow> real \<times> real" where
  "drawPos img c off =
     (cx c - real (imgWidth img) / 2 + fst off, cy c - real (imgHeight img) / 2 + snd off)"

definition drawAt :: "Platform \<Rightarrow> Image \<Rightarrow> real \<times> real \<Rightarrow> Canvas2D \<Rightarrow> Canvas2D" where
  "drawAt P img off c = drawImage P img (fst (drawPos img c off)) (snd (drawPos img c off)) c"

subsection \<open>Stamps\<close>

text \<open>
  One stamp of the dilation: the angle, the ring it belongs to (the loop's radius before
  any wobble) and the radius it is drawn at. Its offset is what \<open>drawAt\<close> receives.
\<close>

record Stamp =
  stAngle :: real
  stRing :: real
  stRadius :: real

definition stampOffset :: "Stamp \<Rightarrow> real \<times> real" where
  "stampOffset st = (cos (stAngle st) * stRadius st, sin (stAngle st) * stRadius st)"

definition steps :: nat where
  "steps = 72"

definition angleOf :: "nat \<Rightarrow> real" where
  "angleOf i = (2 * pi * real i) / real steps"

text \<open>
  The loop \<open>for (r = r0; r > 0; r -= 2)\<close>, as the list of the radii it visits.
\<close>

function ringsFrom :: "real \<Rightarrow> real list" where
  "ringsFrom r = (if r > 0 then r # ringsFrom (r - 2) else [])"
  by pat_completeness auto
termination
  by (relation "measure (\<lambda>r. nat \<lceil>r\<rceil>)") (auto simp: nat_less_iff)

declare ringsFrom.simps [simp del]

text \<open>Solid style: the ring at the full width, then the rings from \<open>w - 1\<close> inwards.\<close>

definition solidRing :: "real \<Rightarrow> Stamp list" where
  "solidRing r = map (\<lambda>i. \<lparr>stAngle = angleOf i, stRing = r, stRadius = r\<rparr>) [0..<steps]"

definition solidStamps :: "real \<Rightarrow> Stamp list" where
  "solidStamps w = solidRing w @ concat (map solidRing (ringsFrom (w - 1)))"

text \<open>Wave styles.\<close>

definition wobbleAt :: "StickerSettings \<Rightarrow> real \<Rightarrow> real" where
  "wobbleAt s a =
     (sin (a * freq (wave1 s)) * amp (wave1 s) +
      cos (a * freq (wave2 s)) * amp (wave2 s) +
      sin (a * freq (wave3 s) + 15 / 10) * amp (wave3 s)) * masterAmp s"

definition waveOuter :: "StickerSettings \<Rightarrow> Stamp list" where
  "waveOuter s =
     map (\<lambda>i. \<lparr>stAngle = angleOf i, stRing = outlineWidth s,
               stRadius = outlineWidth s * max (5 / 100) (1 + wobbleAt s (angleOf i))\<rparr>)
       [0..<steps]"

definition waveRing :: "StickerSettings \<Rightarrow> real \<Rightarrow> Stamp list" where
  "waveRing s rad =
     (let scale = rad / outlineWidth s in
      map (\<lambda>i. \<lparr>stAngle = angleOf i, stRing = rad,
                stRadius = rad * max (5 / 100) (1 + wobbleAt s (angleOf i) * scale)\<rparr>)
        [0..<steps])"

definition waveStamps :: "StickerSettings \<Rightarrow> Stamp list" where
  "waveStamps s = waveOuter s @ concat (map (waveRing s) (ringsFrom (outlineWidth s)))"

subsection \<open>The outline, the shadow preset and the whole function\<close>

definition stampAll :: "Platform \<Rightarrow> Image \<Rightarrow> Stamp list \<Rightarrow> Canvas2D \<Rightarrow> Canvas2D" where
  "stampAll P img sts c = foldl (\<lambda>c st. drawAt P img (stampOffset st) c) c sts"

text \<open>
  The fill that ends both outline branches: \<open>source-in\<close>, the outline colour, the whole
  canvas, and back to \<open>source-over\<close>.
\<close>

definition fillOutline :: "Platform \<Rightarrow> StickerSettings \<Rightarrow> Canvas2D \<Rightarrow> Canvas2D" where
  "fillOutline P s c =
     (let c1 = c\<lparr>globalCompositeOperation := SourceIn\<rparr>;
          c2 = setFillStyle P (outlineColor s) c1;
          c3 = fillRect P 0 0 (real_of_int (cvWidth c2)) (real_of_int (cvHeight c2)) c2
      in c3\<lparr>globalCompositeOperation := SourceOver\<rparr>)"

definition solidOutline :: "Platform \<Rightarrow> Image \<Rightarrow> StickerSettings \<Rightarrow> Canvas2D \<Rightarrow> Canvas2D" where
  "solidOutline P img s c =
     (if outlineStyle s = Solid \<and> outlineWidth s > 0
      then fillOutline P s (stampAll P img (solidStamps (outlineWidth s)) c)
      else c)"

definition waveOutline :: "Platform \<Rightarrow> Image \<Rightarrow> StickerSettings \<Rightarrow> Canvas2D \<Rightarrow> Canvas2D" where
  "waveOutline P img s c =
     (if outlineStyle s \<noteq> Solid \<and> outlineWidth s > 0
      then fillOutline P s (stampAll P img (waveStamps s) c)
      else c)"

definition shadowPreset :: "ShadowStyle \<Rightarrow> Canvas2D \<Rightarrow> Canvas2D" where
  "shadowPreset sh c =
     (if sh = Soft
      then c\<lparr>shadowColor := black (2 / 10), shadowBlur := 16, shadowOffsetX := 0, shadowOffsetY := 4\<rparr>
      else if sh = Hard
      then c\<lparr>shadowColor := black (35 / 100), shadowBlur := 2, shadowOffsetX := 3, shadowOffsetY := 5\<rparr>
      else if sh = Float
      then c\<lparr>shadowColor := black (18 / 100), shadowBlur := 28, shadowOffsetX := 0, shadowOffsetY := 12\<rparr>
      else c)"

text \<open>The state of the canvas when the cutout itself is about to be drawn.\<close>

definition beforeCutout :: "Platform \<Rightarrow> Image \<Rightarrow> StickerSettings \<Rightarrow> Canvas2D" where
  "beforeCutout P img s =
     shadowPreset (shadowStyle s) (waveOutline P img s (solidOutline P img s (sizedCanvas img s)))"

datatype Error = FailedToLoadImage | CanvasContextUnavailable | FailedToCreateBlob

text \<open>
  The canvas that the \<open>onload\<close> handler has drawn when it calls \<open>toBlob\<close>: the
  cutout on top of the outline, drawn with the shadow preset, and the shadow colour reset.
\<close>

definition renderSticker :: "Platform \<Rightarrow> Image \<Rightarrow> StickerSettings \<Rightarrow> Canvas2D" where
  "renderSticker P img s =
     (drawAt P img (0, 0) (beforeCutout P img s))\<lparr>shadowColor := transparent\<rparr>"

text \<open>
  \<open>toBlob\<close> hands its callback a blob, or \<open>null\<close>: always \<open>null\<close> for a canvas without
  pixels (a width or a height of 0), and otherwise when the browser cannot encode a canvas
  of that size.
\<close>

definition toBlobDelivers :: "Platform \<Rightarrow> Canvas2D \<Rightarrow> bool" where
  "toBlobDelivers P c \<longleftrightarrow>
     0 < cvWidth c \<and> 0 < cvHeight c \<and> encoderOk P (cvWidth c) (cvHeight c)"

text \<open>
  \<open>addStickerOutline\<close>. The cutout URL either loads as an image or fires \<open>onerror\<close>
  (\<open>None\<close>). The promise is rejected when the image does not load, when the sized canvas
  gives no context, and when \<open>toBlob\<close> delivers no blob. The result stands for the PNG
  behind the returned object URL: the canvas as \<open>toBlob\<close> reads it.
\<close>

definition addStickerOutline :: "Platform \<Rightarrow> Image option \<Rightarrow> StickerSettings \<Rightarrow> Error + Canvas2D" where
  "addStickerOutline P cutout s =
     (case cutout of
        None \<Rightarrow> Inl FailedToLoadImage
      | Some img \<Rightarrow>
          if \<not> contextOk P (cvWidth (sizedCanvas img s)) (cvHeight (sizedCanvas img s))
          then Inl CanvasContextUnavailable
          else if toBlobDelivers P (renderSticker P img s) then Inr (renderSticker P img s)
          else Inl FailedToCreateBlob)"

text \<open>
  What the PNG holds: the rows of the canvas, each pixel read back with straight
  channels; and the bytes of the blob.
\<close>

definition pngPixels :: "Canvas2D \<Rightarrow> RGBA list list" where
  "pngPixels c =
     map (\<lambda>y. map (\<lambda>x. straight (bitmap c (int x, int y))) [0..<nat (cvWidth c)])
       [0..<nat (cvHeight c)]"

definition pngBytes :: "Platform \<Rightarrow> Canvas2D \<Rightarrow> byte list" where
  "pngBytes P c = pngEncode P (pngPixels c)"

text \<open>
  The browser's store of object URLs. \<open>URL.createObjectURL\<close> makes a URL that was never
  handed out before, here the value of a counter, for the blob.
\<close>

record Browser =
  urlCounter :: nat
  blobStore :: "nat \<rightharpoonup> byte list"

definition createObjectURL :: "byte list \<Rightarrow> Browser \<Rightarrow> nat \<times> Browser" where
  "createObjectURL blob b =
     (urlCounter b,
      b\<lparr>urlCounter := Suc (urlCounter b), blobStore := (blobStore b)(urlCounter b \<mapsto> blob)\<rparr>)"

text \<open>
  \<open>addStickerOutline\<close> with the object URL it resolves to and the browser it leaves: a
  rejected promise leaves the browser as it was.
\<close>

definition addStickerOutlineUrl ::
  "Platform \<Rightarrow> Image option \<Rightarrow> StickerSettings \<Rightarrow> Browser \<Rightarrow> (Error + nat) \<times> Browser" where
  "addStickerOutlineUrl P cutout s b =
     (case addStickerOutline P cutout s of
        Inl err \<Rightarrow> (Inl err, b)
      | Inr c \<Rightarrow> (let (url, b') = createObjectURL (pngBytes P c) b in (Inr url, b')))"

text \<open>The bytes a result stands for: what the store holds at the object URL.\<close>

definition stickerBytes :: "(Error + nat) \<times> Browser \<Rightarrow> Error + byte list option" where
  "stickerBytes r = (case fst r of Inl err \<Rightarrow> Inl err | Inr url \<Rightarrow> Inr (blobStore (snd r) url))"

text \<open>
  The canvas after the stamping loops and before the fill, and the outline layer after
  the fill (the two outline branches exclude each other).
\<close>

definition dilated :: "Platform \<Rightarrow> Image \<Rightarrow> StickerSettings \<Rightarrow> Canvas2D" where
  "dilated P img s =
     stampAll P img
       (if outlineStyle s = Solid then solidStamps (outlineWidth s) else waveStamps s)
       (sizedCanvas img s)"

definition outlineLayer :: "Platform \<Rightarrow> Image \<Rightarrow> StickerSettings \<Rightarrow> Canvas2D" where
  "outlineLayer P img s = waveOutline P img s (solidOutline P img s (sizedCanvas img s))"

text \<open>The margin left and right of (above and below) the centred cutout.\<close>

definition sideMarginX :: "Image \<Rightarrow> Canvas2D \<Rightarrow> real" where
  "sideMarginX img c = fst (drawPos img c (0, 0))"

definition sideMarginY :: "Image \<Rightarrow> Canvas2D \<Rightarrow> real" where
  "sideMarginY img c = snd (drawPos img c (0, 0))"

subsection \<open>A reference platform and sample inputs\<close>

text \<open>
  A simple browser for concrete runs: images are placed at the nearest pixel, a shadow is
  the unblurred silhouette in the shadow colour, and the colours understood are the
  seven-character \<open>#rrggbb\<close> strings that the colour input and the presets produce.
\<close>

definition hexDigit :: "char \<Rightarrow> nat option" where
  "hexDigit ch =
     (let n = (of_char ch :: nat) in
      if 48 \<le> n \<and> n \<le> 57 then Some (n - 48)
      else if 97 \<le> n \<and> n \<le> 102 then Some (n - 87)
      else if 65 \<le> n \<and> n \<le> 70 then Some (n - 55)
      else None)"

definition hexByte :: "char \<Rightarrow> char \<Rightarrow> byte option" where
  "hexByte hi lo =
     (case (hexDigit hi, hexDigit lo) of
        (Some a, Some b) \<Rightarrow> Some (of_nat (16 * a + b))
      | _ \<Rightarrow> None)"

fun hexColor :: "string \<Rightarrow> RGBA option" where
  "hexColor [h, r1, r0, g1, g0, b1, b0] =
     (if h = CHR ''#'' then
        (case (hexByte r1 r0, hexByte g1 g0, hexByte b1 b0) of
           (Some r, Some g, Some b) \<Rightarrow> Some \<lparr>red = r, green = g, blue = b, alpha = 255\<rparr>
         | _ \<Rightarrow> None)
      else None)"
| "hexColor _ = None"

definition nearest :: "real \<Rightarrow> int" where
  "nearest x = \<lfloor>x + 1 / 2\<rfloor>"

definition placeImage :: "Image \<Rightarrow> real \<Rightarrow> real \<Rightarrow> Layer" where
  "placeImage img dx dy =
     (\<lambda>(x, y).
        let u = x - nearest dx; v = y - nearest dy in
        if 0 \<le> u \<and> u < int (imgWidth img) \<and> 0 \<le> v \<and> v < int (imgHeight img)
        then premultiply (imgData img (u, v)) else transparent)"

definition hardShadow :: "RGBA \<Rightarrow> real \<Rightarrow> real \<Rightarrow> real \<Rightarrow> Layer \<Rightarrow> Layer" where
  "hardShadow col blur ox oy A =
     (\<lambda>(x, y).
        premultiply (col\<lparr>alpha := mul255 (alpha col) (alpha (A (x - nearest ox, y - nearest oy)))\<rparr>))"

text \<open>A stand-in for the PNG encoder: the samples of the pixels, row after row.\<close>

definition rawBytes :: "RGBA list list \<Rightarrow> byte list" where
  "rawBytes rows = concat (map (\<lambda>px. [red px, green px, blue px, alpha px]) (concat rows))"

definition refPlatform :: Platform where
  "refPlatform =
     \<lparr>rasterise = placeImage, castShadow = hardShadow, cssColor = hexColor,
      contextOk = (\<lambda>w h. True), encoderOk = (\<lambda>w h. True), pngEncode = rawBytes\<rparr>"

definition opaqueWhite :: RGBA where
  "opaqueWhite = \<lparr>red = 255, green = 255, blue = 255, alpha = 255\<rparr>"

definition square :: "nat \<Rightarrow> Image" where
  "square n = \<lparr>imgWidth = n, imgHeight = n, imgData = (\<lambda>_. opaqueWhite)\<rparr>"

definition wobblySettings :: StickerSettings where
  "wobblySettings = DEFAULT_SETTINGS\<lparr>outlineStyle := Wobbly\<rparr>"

definition floatSettings :: StickerSettings where
  "floatSettings = DEFAULT_SETTINGS\<lparr>shadowStyle := Float\<rparr>"

text \<open>
  Settings that ask for a canvas exactly \<open>2^32\<close> wide around a cutout 400 wide: a wave
  style of width 1 whose wobble alone is 2147483443.
\<close>

definition hugeSettings :: StickerSettings where
  "hugeSettings =
     \<lparr>outlineWidth = 1, outlineColor = ''#ffffff'', outlineStyle = Wobbly,
      wave1 = \<lparr>freq = 2, amp = 1\<rparr>, wave2 = \<lparr>freq = 35 / 10, amp = 0\<rparr>,
      wave3 = \<lparr>freq = 7, amp = 0\<rparr>, masterAmp = 2147483443, shadowStyle = ShadowNone\<rparr>"

text \<open>
  A cutout that is barely there (white at alpha 1 of 255 everywhere), and the thinnest
  outline of the width slider in the red of the colour presets.
\<close>

definition faintWhite :: RGBA where
  "faintWhite = \<lparr>red = 255, green = 255, blue = 255, alpha = 1\<rparr>"

definition faintSquare :: "nat \<Rightarrow> Image" where
  "faintSquare n = \<lparr>imgWidth = n, imgHeight = n, imgData = (\<lambda>_. faintWhite)\<rparr>"

definition redSettings :: StickerSettings where
  "redSettings = DEFAULT_SETTINGS\<lparr>outlineWidth := 1, outlineColor := ''#ef4444''\<rparr>"

text \<open>
  Settings without outline, for runs on a small cutout whose every pixel can be followed,
  and two states of the browser's URL store.
\<close>

definition plainSettings :: StickerSettings where
  "plainSettings = DEFAULT_SETTINGS\<lparr>outlineWidth := 0\<rparr>"

definition freshBrowser :: Browser where
  "freshBrowser = \<lparr>urlCounter = 0, blobStore = Map.empty\<rparr>"

definition usedBrowser :: Browser where
  "usedBrowser = \<lparr>urlCounter = 5, blobStore = [2 \<mapsto> [1, 2, 3]]\<rparr>"

text \<open>
  Wave settings, all of them steps of the sliders, for which the sum rounded in doubles
  falls just short of the whole number that exact arithmetic gives.
\<close>

definition roundingSettings :: StickerSettings where
  "roundingSettings =
     \<lparr>outlineWidth = 20, outlineColor = ''#ffffff'', outlineStyle = Wobbly,
      wave1 = \<lparr>freq = 2, amp = fl (8 / 10)\<rparr>, wave2 = \<lparr>freq = 35 / 10, amp = 125 / 100\<rparr>,
      wave3 = \<lparr>freq = 7, amp = fl (155 / 100)\<rparr>, masterAmp = 25 / 10,
      shadowStyle = ShadowNone\<rparr>"

definition wobblySticker :: Canvas2D where
  "wobblySticker = renderSticker refPlatform (square 100) wobblySettings"

definition floatSticker :: Canvas2D where
  "floatSticker = renderSticker refPlatform (square 100) floatSettings"

subsection \<open>The regeneration effect of \<open>ResultView\<close>\<close>

text \<open>
  The effect of \<open>ResultView\<close> that runs whenever the settings change, as a transition
  system. JavaScript runs each callback to completion, so the steps are: the effect
  (React runs the cleanup of the previous effect, then the new effect body), a debounce
  timer that fires (the callback runs up to its \<open>await\<close>), and a generation that
  settles (the rest of the callback, after \<open>addStickerOutline\<close> has resolved or
  rejected). The 100 ms of the timer are not modelled: an armed timer may fire at any
  later step.

  Every run of the effect is a generation, numbered in order. Its closure variable
  \<open>cancelled\<close> and the stage of its callback are kept with it. An object URL is
  named by the number of the generation whose blob it holds (\<open>createObjectURL\<close> returns
  a fresh URL, and a generation settles once); \<open>objectUrls\<close> is the browser's store of
  the URLs that are created and not revoked.
\<close>

datatype Stage = Armed | Cleared | InFlight | Finished

record Generation =
  genSettings :: StickerSettings
  cancelled :: bool
  stage :: Stage

record ResultView =
  generations :: "Generation list"
  debounceRef :: "nat option"
  stickerUrl :: "nat option"
  regenerating :: bool
  objectUrls :: "nat \<rightharpoonup> Canvas2D"

datatype Event = SettingsChange StickerSettings | TimerFires nat | Settles nat

text \<open>
  \<open>clearTimeout(debounceRef.current)\<close>: a timer that is still armed is cleared; clearing a
  timer that has fired, or none, does nothing.
\<close>

definition clearTimeout :: "nat option \<Rightarrow> Generation list \<Rightarrow> Generation list" where
  "clearTimeout ref gs =
     (case ref of
        None \<Rightarrow> gs
      | Some t \<Rightarrow>
          if t < length gs \<and> stage (gs ! t) = Armed then gs[t := (gs ! t)\<lparr>stage := Cleared\<rparr>]
          else gs)"

text \<open>
  The cleanup of the previous effect (there is none at the first run): it sets that
  generation's \<open>cancelled\<close> and clears the timer in \<open>debounceRef\<close>.
\<close>

definition cleanup :: "ResultView \<Rightarrow> ResultView" where
  "cleanup v =
     (if generations v = [] then v
      else
        (let g = length (generations v) - 1;
             gs = (generations v)[g := (generations v ! g)\<lparr>cancelled := True\<rparr>]
         in v\<lparr>generations := clearTimeout (debounceRef v) gs\<rparr>))"

text \<open>
  The effect for new settings: after the cleanup, the body clears the timer in
  \<open>debounceRef\<close> and arms a new one for a new generation.
\<close>

definition runEffect :: "StickerSettings \<Rightarrow> ResultView \<Rightarrow> ResultView" where
  "runEffect s v =
     (let v1 = cleanup v;
          gs = clearTimeout (debounceRef v1) (generations v1)
      in v1\<lparr>generations := gs @ [\<lparr>genSettings = s, cancelled = False, stage = Armed\<rparr>],
             debounceRef := Some (length gs)\<rparr>)"

definition revokeObjectURL :: "nat \<Rightarrow> ResultView \<Rightarrow> ResultView" where
  "revokeObjectURL u v = v\<lparr>objectUrls := (objectUrls v)(u := None)\<rparr>"

definition setStickerUrl :: "nat \<Rightarrow> ResultView \<Rightarrow> ResultView" where
  "setStickerUrl url v =
     (case stickerUrl v of None \<Rightarrow> v | Some prev \<Rightarrow> revokeObjectURL prev v)\<lparr>stickerUrl := Some url\<rparr>"

text \<open>The timer callback up to its \<open>await\<close>: \<open>setRegenerating(true)\<close>, and the generation is in flight.\<close>

definition timerFires :: "nat \<Rightarrow> ResultView \<Rightarrow> ResultView" where
  "timerFires g v =
     v\<lparr>generations := (generations v)[g := (generations v ! g)\<lparr>stage := InFlight\<rparr>],
       regenerating := True\<rparr>"

text \<open>
  The callback after the \<open>await\<close>. A resolved promise brings a new object URL: a
  cancelled generation revokes it and returns; otherwise the URL becomes the sticker URL
  and the previous one is revoked. A rejected promise is logged. \<open>setRegenerating(false)\<close>
  runs unless the generation is cancelled.
\<close>

definition settles :: "Platform \<Rightarrow> Image option \<Rightarrow> nat \<Rightarrow> ResultView \<Rightarrow> ResultView" where
  "settles P cutout g v =
     (let gen = generations v ! g;
          v1 = v\<lparr>generations := (generations v)[g := gen\<lparr>stage := Finished\<rparr>]\<rparr>
      in case addStickerOutline P cutout (genSettings gen) of
           Inr blob \<Rightarrow>
             (let v2 = v1\<lparr>objectUrls := (objectUrls v1)(g \<mapsto> blob)\<rparr> in
              if cancelled gen then revokeObjectURL g v2
              else (setStickerUrl g v2)\<lparr>regenerating := False\<rparr>)
         | Inl err \<Rightarrow> if cancelled gen then v1 else v1\<lparr>regenerating := False\<rparr>)"

text \<open>An event that cannot happen in a state (a timer that is not armed, a generation that is not in flight) leaves it as it is.\<close>

definition step :: "Platform \<Rightarrow> Image option \<Rightarrow> ResultView \<Rightarrow> Event \<Rightarrow> ResultView" where
  "step P cutout v ev =
     (case ev of
        SettingsChange s \<Rightarrow> runEffect s v
      | TimerFires g \<Rightarrow>
          if g < length (generations v) \<and> stage (generations v ! g) = Armed
          then timerFires g v else v
      | Settles g \<Rightarrow>
          if g < length (generations v) \<and> stage (generations v ! g) = InFlight
          then settles P cutout g v else v)"

fun exec :: "Platform \<Rightarrow> Image option \<Rightarrow> ResultView \<Rightarrow> Event list \<Rightarrow> ResultView" where
  "exec P cutout v [] = v"
| "exec P cutout v (ev # evs) = exec P cutout (step P cutout v ev) evs"

text \<open>Mounting the view runs the effect for \<open>DEFAULT_SETTINGS\<close>.\<close>

definition mount :: ResultView where
  "mount =
     runEffect DEFAULT_SETTINGS
       \<lparr>generations = [], debounceRef = None, stickerUrl = None, regenerating = False,
        objectUrls = Map.empty\<rparr>"

fun isSettingsChange :: "Event \<Rightarrow> bool" where
  "isSettingsChange (SettingsChange s) = True"
| "isSettingsChange _ = False"

text \<open>
  What holds in every state of the view: only the newest generation is not cancelled and
  only it can have an armed timer; the object URLs in the store are exactly the sticker
  URL; and a stored blob is the result of its generation's settings.
\<close>

definition viewInv :: "Platform \<Rightarrow> Image option \<Rightarrow> ResultView \<Rightarrow> bool" where
  "viewInv P cutout v \<longleftrightarrow>
     generations v \<noteq> []
   \<and> debounceRef v = Some (length (generations v) - 1)
   \<and> \<not> cancelled (last (generations v))
   \<and> (\<forall>g. Suc g < length (generations v) \<longrightarrow>
          cancelled (generations v ! g) \<and> stage (generations v ! g) \<noteq> Armed)
   \<and> dom (objectUrls v) = set_option (stickerUrl v)
   \<and> (\<forall>u blob. objectUrls v u = Some blob \<longrightarrow>
          u < length (generations v) \<and> stage (generations v ! u) = Finished
        \<and> addStickerOutline P cutout (genSettings (generations v ! u)) = Inr blob)"

text \<open>A sample trace: the first generation is in flight when the settings change.\<close>

definition viewA :: ResultView where
  "viewA = exec refPlatform (Some (square 100)) mount [TimerFires 0]"

definition viewB :: ResultView where
  "viewB =
     exec refPlatform (Some (square 100))
       (step refPlatform (Some (square 100)) viewA (SettingsChange wobblySettings))
       [Settles 0, TimerFires 1, Settles 1]"

section \<open>Properties\<close>

subsection \<open>Rounding to a double\<close>

lemma roundEven_of_int [simp]: "roundEven (of_int n) = n"
  by (simp add: roundEven_def)

lemma roundEven_range: "roundEven y = \<lfloor>y\<rfloor> \<or> roundEven y = \<lfloor>y\<rfloor> + 1"
  by (simp add: roundEven_def Let_def)

lemma roundEven_mono:
  assumes "y \<le> z"
  shows "roundEven y \<le> roundEven z"
proof (cases "\<lfloor>y\<rfloor> = \<lfloor>z\<rfloor>")
  case True
  then show ?thesis using assms by (auto simp: roundEven_def Let_def)
next
  case False
  moreover have "\<lfloor>y\<rfloor> \<le> \<lfloor>z\<rfloor>" using assms by (rule floor_mono)
  ultimately have lt: "\<lfloor>y\<rfloor> + 1 \<le> \<lfloor>z\<rfloor>" by simp
  have "roundEven y \<le> \<lfloor>y\<rfloor> + 1" using roundEven_range [of y] by auto
  moreover have "\<lfloor>z\<rfloor> \<le> roundEven z" using roundEven_range [of z] by auto
  ultimately show ?thesis using lt by simp
qed

lemma roundEven_minus: "roundEven (- y) = - roundEven y"
proof (cases "y = of_int \<lfloor>y\<rfloor>")
  case True
  then obtain n where "y = of_int n" by blast
  then show ?thesis by (simp flip: of_int_minus)
next
  case False
  then have fl: "\<lfloor>- y\<rfloor> = - \<lfloor>y\<rfloor> - 1"
    by (simp add: floor_minus ceiling_altdef)
  show ?thesis
    unfolding roundEven_def Let_def fl
    by (auto simp: algebra_simps)
qed

lemma toGrid_mono:
  assumes "y \<le> z"
  shows "toGrid u y \<le> toGrid u z"
proof -
  have p: "0 < (2::real) powi u" by simp
  have "y / 2 powi u \<le> z / 2 powi u" using assms p by (simp add: divide_right_mono)
  then have "roundEven (y / 2 powi u) \<le> roundEven (z / 2 powi u)" by (rule roundEven_mono)
  then have "real_of_int (roundEven (y / 2 powi u)) \<le> real_of_int (roundEven (z / 2 powi u))"
    by simp
  then show ?thesis unfolding toGrid_def using p by (simp add: mult_right_mono)
qed

lemma toGrid_exact [simp]: "toGrid u (of_int m * 2 powi u) = of_int m * 2 powi u"
  by (simp add: toGrid_def)

lemma roundEven_zero [simp]: "roundEven 0 = 0"
  using roundEven_of_int [of 0] by simp

lemma toGrid_zero [simp]: "toGrid u 0 = 0"
  by (simp add: toGrid_def)

lemma toGrid_minus: "toGrid u (- y) = - toGrid u y"
  by (simp add: toGrid_def roundEven_minus)

lemma binade:
  assumes "0 < x"
  shows "2 powi \<lfloor>log 2 x\<rfloor> \<le> x" and "x < 2 powi (\<lfloor>log 2 x\<rfloor> + 1)"
proof -
  let ?e = "\<lfloor>log 2 x\<rfloor>"
  have lo: "real_of_int ?e \<le> log 2 x" by simp
  have hi: "log 2 x < real_of_int (?e + 1)" by simp
  have x: "2 powr (log 2 x) = x" using assms by simp
  have "2 powr real_of_int ?e \<le> 2 powr (log 2 x)" using lo by (intro powr_mono) simp_all
  then show "2 powi ?e \<le> x" unfolding x by (simp add: powr_real_of_int')
  have c: "(2::real) powr real_of_int (?e + 1) = 2 powi (?e + 1)"
    by (rule powr_real_of_int') simp_all
  have "2 powr (log 2 x) < 2 powr real_of_int (?e + 1)"
    using hi by (intro powr_less_mono) simp_all
  then show "x < 2 powi (?e + 1)" unfolding x c .
qed

lemma floor_log_less:
  assumes "0 < x" and "x < 2 powi n"
  shows "\<lfloor>log 2 x\<rfloor> < n"
proof (rule ccontr)
  assume "\<not> \<lfloor>log 2 x\<rfloor> < n"
  then have "n \<le> \<lfloor>log 2 x\<rfloor>" by simp
  then have "(2::real) powi n \<le> 2 powi \<lfloor>log 2 x\<rfloor>" by (intro power_int_increasing) simp_all
  with binade(1) [OF assms(1)] assms(2) show False by simp
qed

lemma floor_log_ge:
  assumes "0 < x" and "2 powi n \<le> x"
  shows "n \<le> \<lfloor>log 2 x\<rfloor>"
proof (rule ccontr)
  assume "\<not> n \<le> \<lfloor>log 2 x\<rfloor>"
  then have "\<lfloor>log 2 x\<rfloor> + 1 \<le> n" by simp
  then have "(2::real) powi (\<lfloor>log 2 x\<rfloor> + 1) \<le> 2 powi n" by (intro power_int_increasing) simp_all
  with binade(2) [OF assms(1)] assms(2) show False by simp
qed

lemma ulpExp_minus [simp]: "ulpExp (- x) = ulpExp x"
  by (simp add: ulpExp_def)

lemma ulpExp_mono:
  assumes "0 < x" and "x \<le> y"
  shows "ulpExp x \<le> ulpExp y"
proof -
  have "log 2 x \<le> log 2 y" using assms by simp
  then have "\<lfloor>log 2 x\<rfloor> \<le> \<lfloor>log 2 y\<rfloor>" by (rule floor_mono)
  then show ?thesis using assms by (simp add: ulpExp_def)
qed

lemma fl_zero [simp]: "fl 0 = 0"
  by (simp add: fl_def)

lemma fl_toGrid: "fl x = toGrid (ulpExp x) x"
  by (simp add: fl_def)

lemma fl_minus: "fl (- x) = - fl x"
  by (simp add: fl_def toGrid_minus)

lemma fl_mono_pos:
  assumes "0 < x" and "x \<le> y"
  shows "fl x \<le> fl y"
proof (cases "ulpExp x = ulpExp y")
  case True
  then show ?thesis using assms(2) by (simp add: fl_toGrid toGrid_mono)
next
  case False
  have y: "0 < y" using assms by simp
  let ?ex = "\<lfloor>log 2 x\<rfloor>" and ?ey = "\<lfloor>log 2 y\<rfloor>"
  have lt: "ulpExp x < ulpExp y" using False ulpExp_mono [OF assms] by simp
  then have mx: "max ?ex (- 1022) < max ?ey (- 1022)"
    using assms(1) y by (simp add: ulpExp_def abs_of_pos)
  have ey: "- 1022 < ?ey" using mx by linarith
  have exy: "?ex < ?ey" using mx by linarith
  have uy: "ulpExp y = ?ey - 52" using ey y by (simp add: ulpExp_def)
  define b :: real where "b = 2 powi ?ey"
  have xb: "x \<le> b"
  proof -
    have "x < 2 powi (?ex + 1)" using binade(2) [OF assms(1)] .
    also have "\<dots> \<le> 2 powi ?ey" using exy by (intro power_int_increasing) simp_all
    finally show ?thesis by (simp add: b_def)
  qed
  have by': "b \<le> y" unfolding b_def using binade(1) [OF y] .
  have ux: "ulpExp x \<le> ?ey" using lt uy by simp
  have bx: "b = of_int (2 ^ nat (?ey - ulpExp x)) * 2 powi (ulpExp x)"
  proof -
    have "(2::real) powi ?ey = 2 powi ((?ey - ulpExp x) + ulpExp x)" by simp
    also have "\<dots> = 2 powi (?ey - ulpExp x) * 2 powi (ulpExp x)"
      by (subst power_int_add) simp_all
    also have "(2::real) powi (?ey - ulpExp x) = 2 ^ nat (?ey - ulpExp x)"
      using ux by (simp add: power_int_def)
    finally show ?thesis by (simp add: b_def)
  qed
  have byg: "b = of_int (2 ^ 52) * 2 powi (ulpExp y)"
  proof -
    have "(2::real) powi ?ey = 2 powi (52 + ulpExp y)" using uy by simp
    also have "\<dots> = 2 powi 52 * 2 powi (ulpExp y)"
      by (subst power_int_add) simp_all
    finally show ?thesis by (simp add: b_def)
  qed
  have "fl x \<le> toGrid (ulpExp x) b" using xb by (simp add: fl_toGrid toGrid_mono)
  also have "\<dots> = b" by (subst (1 2) bx) (rule toGrid_exact)
  also have "\<dots> = toGrid (ulpExp y) b" by (subst (1 2) byg) (rule toGrid_exact [symmetric])
  also have "\<dots> \<le> fl y" using by' by (simp add: fl_toGrid toGrid_mono)
  finally show ?thesis .
qed

lemma fl_nonneg: "0 \<le> x \<Longrightarrow> 0 \<le> fl x"
  using toGrid_mono [of 0 x "ulpExp x"] by (simp add: fl_toGrid)

lemma fl_nonpos: "x \<le> 0 \<Longrightarrow> fl x \<le> 0"
  using toGrid_mono [of x 0 "ulpExp x"] by (simp add: fl_toGrid)

lemma fl_mono:
  assumes "x \<le> y"
  shows "fl x \<le> fl y"
proof -
  consider "0 < x" | "x \<le> 0" "0 \<le> y" | "y < 0" by linarith
  then show ?thesis
  proof cases
    case 1
    then show ?thesis using assms by (rule fl_mono_pos)
  next
    case 2
    then show ?thesis using fl_nonpos [of x] fl_nonneg [of y] by simp
  next
    case 3
    then have "0 < - y" and "- y \<le> - x" using assms by simp_all
    then have "fl (- y) \<le> fl (- x)" by (rule fl_mono_pos)
    then show ?thesis by (simp add: fl_minus)
  qed
qed

lemma fl_dyadic:
  assumes "\<bar>m\<bar> < 2 ^ 53" and "k \<le> 1074"
  shows "fl (of_int m / 2 ^ k) = of_int m / 2 ^ k"
proof (cases "m = 0")
  case True
  then show ?thesis by simp
next
  case False
  define x :: real where "x = of_int m / 2 ^ k"
  have x0: "x \<noteq> 0" using False by (simp add: x_def)
  have ax: "\<bar>x\<bar> = of_int \<bar>m\<bar> / 2 ^ k" by (simp add: x_def abs_divide)
  have pos: "0 < \<bar>x\<bar>" using x0 by simp
  have "real_of_int \<bar>m\<bar> < 2 ^ 53" using assms(1) by (metis of_int_less_numeral_power_cancel_iff)
  then have "\<bar>x\<bar> < 2 ^ 53 / 2 ^ k" unfolding ax by (simp add: divide_strict_right_mono)
  also have "(2::real) ^ 53 / 2 ^ k = 2 powi (53 - int k)"
    by (simp add: power_int_diff)
  finally have "\<lfloor>log 2 \<bar>x\<bar>\<rfloor> < 53 - int k" using pos by (intro floor_log_less)
  then have u: "ulpExp x \<le> - int k" using assms(2) by (simp add: ulpExp_def)
  have "x = of_int m * 2 powi (- int k)" by (simp add: x_def power_int_minus field_simps)
  also have "(2::real) powi (- int k) = 2 powi ((- int k - ulpExp x) + ulpExp x)" by simp
  also have "\<dots> = 2 powi (- int k - ulpExp x) * 2 powi (ulpExp x)"
    by (subst power_int_add) simp_all
  also have "(2::real) powi (- int k - ulpExp x) = of_int (2 ^ nat (- int k - ulpExp x))"
    using u by (simp add: power_int_def)
  finally have g: "x = of_int (m * 2 ^ nat (- int k - ulpExp x)) * 2 powi (ulpExp x)"
    by simp
  have "toGrid (ulpExp x) x = x" by (subst (1 3) g) (rule toGrid_exact)
  then show ?thesis using x0 by (simp add: fl_def x_def)
qed

lemma fl_grid:
  assumes "\<bar>m\<bar> < 2 ^ 53" and "- 1074 \<le> u"
  shows "fl (of_int m * 2 powi u) = of_int m * 2 powi u"
proof (cases "m = 0")
  case True
  then show ?thesis by simp
next
  case False
  define x :: real where "x = of_int m * 2 powi u"
  have x0: "x \<noteq> 0" using False by (simp add: x_def)
  have ax: "\<bar>x\<bar> = of_int \<bar>m\<bar> * 2 powi u" by (simp add: x_def abs_mult)
  have pos: "0 < \<bar>x\<bar>" using x0 by simp
  have "real_of_int \<bar>m\<bar> < 2 ^ 53" using assms(1) by (metis of_int_less_numeral_power_cancel_iff)
  then have "\<bar>x\<bar> < 2 ^ 53 * 2 powi u" unfolding ax by (simp add: mult_strict_right_mono)
  also have "(2::real) ^ 53 * 2 powi u = 2 powi (53 + u)"
    by (simp add: power_int_add)
  finally have "\<lfloor>log 2 \<bar>x\<bar>\<rfloor> < 53 + u" using pos by (intro floor_log_less)
  then have le: "ulpExp x \<le> u" using assms(2) by (simp add: ulpExp_def)
  have "(2::real) powi u = 2 powi ((u - ulpExp x) + ulpExp x)" by simp
  also have "\<dots> = 2 powi (u - ulpExp x) * 2 powi (ulpExp x)"
    by (subst power_int_add) simp_all
  also have "(2::real) powi (u - ulpExp x) = of_int (2 ^ nat (u - ulpExp x))"
    using le by (simp add: power_int_def)
  finally have "x = of_int m * (of_int (2 ^ nat (u - ulpExp x)) * 2 powi (ulpExp x))"
    by (simp add: x_def)
  then have g: "x = of_int (m * 2 ^ nat (u - ulpExp x)) * 2 powi (ulpExp x)"
    by simp
  have "toGrid (ulpExp x) x = x" by (subst (1 3) g) (rule toGrid_exact)
  then show ?thesis using x0 by (simp add: fl_def x_def)
qed

lemma fl_idem_pos:
  assumes "0 < x"
  shows "fl (fl x) = fl x"
proof -
  let ?e = "\<lfloor>log 2 x\<rfloor>"
  let ?u = "ulpExp x"
  let ?n = "roundEven (x / 2 powi ?u)"
  have u: "?u = max ?e (- 1022) - 52" using assms by (simp add: ulpExp_def)
  have ulo: "- 1074 \<le> ?u" using u by simp
  have flx: "fl x = of_int ?n * 2 powi ?u" using assms by (simp add: fl_def toGrid_def)
  have p: "0 < (2::real) powi ?u" by simp
  have "x < 2 powi (?e + 1)" using binade(2) [OF assms] .
  also have "\<dots> \<le> 2 powi (?u + 53)" using u by (intro power_int_increasing) simp_all
  also have "\<dots> = 2 ^ 53 * 2 powi ?u" by (simp add: power_int_add)
  finally have "x / 2 powi ?u < 2 ^ 53" using p by (simp add: pos_divide_less_eq)
  then have "x / 2 powi ?u \<le> real_of_int (2 ^ 53)" by simp
  then have "?n \<le> roundEven (real_of_int (2 ^ 53))" by (rule roundEven_mono)
  then have hi: "?n \<le> 2 ^ 53" by (simp only: roundEven_of_int)
  have "0 \<le> x / 2 powi ?u" using assms by simp
  then have "roundEven 0 \<le> ?n" by (rule roundEven_mono)
  then have lo: "0 \<le> ?n" by simp
  show ?thesis
  proof (cases "?n = 2 ^ 53")
    case True
    have "fl x = of_int (2 ^ 52) * 2 powi (?u + 1)"
      unfolding flx True by (simp add: power_int_add)
    moreover have "fl (of_int (2 ^ 52) * 2 powi (?u + 1)) = of_int (2 ^ 52) * 2 powi (?u + 1)"
      using ulo by (intro fl_grid) simp_all
    ultimately show ?thesis by simp
  next
    case False
    then have "\<bar>?n\<bar> < 2 ^ 53" using hi lo by simp
    then have "fl (of_int ?n * 2 powi ?u) = of_int ?n * 2 powi ?u"
      using ulo by (rule fl_grid)
    then show ?thesis unfolding flx .
  qed
qed

lemma fl_idem [simp]: "fl (fl x) = fl x"
proof -
  consider "0 < x" | "x = 0" | "x < 0" by linarith
  then show ?thesis
  proof cases
    case 1
    then show ?thesis by (rule fl_idem_pos)
  next
    case 2
    then show ?thesis by simp
  next
    case 3
    then have "fl (fl (- x)) = fl (- x)" by (intro fl_idem_pos) simp
    then show ?thesis by (simp add: fl_minus)
  qed
qed

lemma fl_pow2: "fl (2 ^ k) = 2 ^ k"
  using fl_grid [of 1 "int k"] by (simp add: power_int_def)

lemma fl_bound:
  assumes "\<bar>x\<bar> \<le> 2 ^ k"
  shows "\<bar>fl x\<bar> \<le> 2 ^ k"
proof -
  have "x \<le> 2 ^ k" using assms by linarith
  then have hi: "fl x \<le> fl (2 ^ k)" by (rule fl_mono)
  have "- (2 ^ k) \<le> x" using assms by linarith
  then have lo: "fl (- (2 ^ k)) \<le> fl x" by (rule fl_mono)
  from hi lo show ?thesis by (simp add: fl_minus fl_pow2 abs_le_iff)
qed

lemma fl_of_int:
  assumes "\<bar>n\<bar> < 2 ^ 53"
  shows "fl (of_int n) = of_int n"
  using fl_dyadic [OF assms, of 0] by simp

lemma fl_of_nat:
  assumes "n < 2 ^ 53"
  shows "fl (of_nat n) = of_nat n"
  using fl_of_int [of "int n"] assms by simp

lemma fl_numeral [simp]:
  "\<bar>numeral k :: int\<bar> < 2 ^ 53 \<Longrightarrow> fl (numeral k) = numeral k"
  using fl_of_int [of "numeral k"] by simp

lemma fl_one [simp]: "fl 1 = 1"
  using fl_of_int [of 1] by simp

lemma fl_eval:
  assumes "0 < x" and "2 powi e \<le> x" and "x < 2 powi (e + 1)" and "- 1022 \<le> e"
  shows "fl x = of_int (roundEven (x / 2 powi (e - 52))) * 2 powi (e - 52)"
proof -
  have "e \<le> \<lfloor>log 2 x\<rfloor>" using assms(1,2) by (rule floor_log_ge)
  moreover have "\<lfloor>log 2 x\<rfloor> < e + 1" using assms(1,3) by (rule floor_log_less)
  ultimately have "\<lfloor>log 2 x\<rfloor> = e" by simp
  then have "ulpExp x = e - 52" using assms(1,4) by (simp add: ulpExp_def)
  then show ?thesis using assms(1) by (simp add: fl_def toGrid_def)
qed

subsection \<open>Arithmetic on samples\<close>

lemma unat_byte_le: "unat (a :: byte) \<le> 255"
  using unsigned_less [of a, where ?'a = nat] by simp

lemma mul255_255 [simp]: "mul255 a 255 = a" "mul255 255 a = a"
proof -
  have "(unat a * 255 + 127) div 255 = unat a" by simp
  then show "mul255 a 255 = a" by (simp add: mul255_def)
  have "(255 * unat a + 127) div 255 = unat a" by simp
  then show "mul255 255 a = a" by (simp add: mul255_def)
qed

lemma mul255_0 [simp]: "mul255 a 0 = 0" "mul255 0 a = 0"
  by (simp_all add: mul255_def)

lemma premultiply_opaque: "alpha col = 255 \<Longrightarrow> premultiply col = col"
  by (simp add: premultiply_def)

lemma unmul_255 [simp]: "unmul c 255 = c"
proof -
  have "(unat c * 255 + 127) div 255 = unat c" by simp
  then show ?thesis using unat_byte_le [of c] by (simp add: unmul_def)
qed

lemma straight_opaque: "alpha px = 255 \<Longrightarrow> straight px = px"
  by (simp add: straight_def)

lemma cover_one [simp]: "cover 1 b = b"
proof -
  have "roundEven (real (unat b)) = int (unat b)"
    using roundEven_of_int [of "int (unat b)"] by simp
  then show ?thesis by (simp add: cover_def)
qed

subsection \<open>What drawing leaves untouched\<close>

lemma compositeLayer_ctx [simp]:
  "cvWidth (compositeLayer A c) = cvWidth c"
  "cvHeight (compositeLayer A c) = cvHeight c"
  "globalCompositeOperation (compositeLayer A c) = globalCompositeOperation c"
  "fillStyle (compositeLayer A c) = fillStyle c"
  "shadowColor (compositeLayer A c) = shadowColor c"
  "shadowBlur (compositeLayer A c) = shadowBlur c"
  "shadowOffsetX (compositeLayer A c) = shadowOffsetX c"
  "shadowOffsetY (compositeLayer A c) = shadowOffsetY c"
  by (simp_all add: compositeLayer_def)

lemma paintLayer_ctx [simp]:
  "cvWidth (paintLayer P A c) = cvWidth c"
  "cvHeight (paintLayer P A c) = cvHeight c"
  "globalCompositeOperation (paintLayer P A c) = globalCompositeOperation c"
  "fillStyle (paintLayer P A c) = fillStyle c"
  "shadowColor (paintLayer P A c) = shadowColor c"
  "shadowBlur (paintLayer P A c) = shadowBlur c"
  "shadowOffsetX (paintLayer P A c) = shadowOffsetX c"
  "shadowOffsetY (paintLayer P A c) = shadowOffsetY c"
  by (simp_all add: paintLayer_def)

lemma drawAt_ctx [simp]:
  "cvWidth (drawAt P img off c) = cvWidth c"
  "cvHeight (drawAt P img off c) = cvHeight c"
  "globalCompositeOperation (drawAt P img off c) = globalCompositeOperation c"
  "fillStyle (drawAt P img off c) = fillStyle c"
  "shadowColor (drawAt P img off c) = shadowColor c"
  "shadowBlur (drawAt P img off c) = shadowBlur c"
  "shadowOffsetX (drawAt P img off c) = shadowOffsetX c"
  "shadowOffsetY (drawAt P img off c) = shadowOffsetY c"
  by (simp_all add: drawAt_def drawImage_def)

lemma stampAll_ctx [simp]:
  "cvWidth (stampAll P img sts c) = cvWidth c"
  "cvHeight (stampAll P img sts c) = cvHeight c"
  "globalCompositeOperation (stampAll P img sts c) = globalCompositeOperation c"
  "fillStyle (stampAll P img sts c) = fillStyle c"
  "shadowColor (stampAll P img sts c) = shadowColor c"
  "shadowBlur (stampAll P img sts c) = shadowBlur c"
  "shadowOffsetX (stampAll P img sts c) = shadowOffsetX c"
  "shadowOffsetY (stampAll P img sts c) = shadowOffsetY c"
  unfolding stampAll_def by (induction sts arbitrary: c; simp)+

lemma setFillStyle_ctx [simp]:
  "cvWidth (setFillStyle P str c) = cvWidth c"
  "cvHeight (setFillStyle P str c) = cvHeight c"
  "bitmap (setFillStyle P str c) = bitmap c"
  "globalCompositeOperation (setFillStyle P str c) = globalCompositeOperation c"
  "shadowColor (setFillStyle P str c) = shadowColor c"
  "shadowBlur (setFillStyle P str c) = shadowBlur c"
  "shadowOffsetX (setFillStyle P str c) = shadowOffsetX c"
  "shadowOffsetY (setFillStyle P str c) = shadowOffsetY c"
  by (simp_all add: setFillStyle_def split: option.splits)

lemma fillOutline_ctx [simp]:
  "cvWidth (fillOutline P s c) = cvWidth c"
  "cvHeight (fillOutline P s c) = cvHeight c"
  "globalCompositeOperation (fillOutline P s c) = SourceOver"
  "shadowColor (fillOutline P s c) = shadowColor c"
  "shadowBlur (fillOutline P s c) = shadowBlur c"
  "shadowOffsetX (fillOutline P s c) = shadowOffsetX c"
  "shadowOffsetY (fillOutline P s c) = shadowOffsetY c"
  by (simp_all add: fillOutline_def fillRect_def Let_def)

lemma sizedCanvas_ctx [simp]:
  "cvWidth (sizedCanvas img s) = reflectedDim 300 (requestedWidth img s)"
  "cvHeight (sizedCanvas img s) = reflectedDim 150 (requestedHeight img s)"
  "bitmap (sizedCanvas img s) = (\<lambda>_. transparent)"
  "globalCompositeOperation (sizedCanvas img s) = SourceOver"
  "shadowColor (sizedCanvas img s) = transparent"
  "shadowBlur (sizedCanvas img s) = 0"
  "shadowOffsetX (sizedCanvas img s) = 0"
  "shadowOffsetY (sizedCanvas img s) = 0"
  by (simp_all add: sizedCanvas_def setWidth_def setHeight_def createCanvas_def)

lemma outlineLayer_ctx [simp]:
  "cvWidth (outlineLayer P img s) = reflectedDim 300 (requestedWidth img s)"
  "cvHeight (outlineLayer P img s) = reflectedDim 150 (requestedHeight img s)"
  "globalCompositeOperation (outlineLayer P img s) = SourceOver"
  "shadowColor (outlineLayer P img s) = transparent"
  "shadowBlur (outlineLayer P img s) = 0"
  "shadowOffsetX (outlineLayer P img s) = 0"
  "shadowOffsetY (outlineLayer P img s) = 0"
  by (simp_all add: outlineLayer_def waveOutline_def solidOutline_def)

lemma shadowPreset_dims [simp]:
  "cvWidth (shadowPreset sh c) = cvWidth c"
  "cvHeight (shadowPreset sh c) = cvHeight c"
  "bitmap (shadowPreset sh c) = bitmap c"
  "globalCompositeOperation (shadowPreset sh c) = globalCompositeOperation c"
  by (simp_all add: shadowPreset_def)

lemma beforeCutout_outlineLayer:
  "beforeCutout P img s = shadowPreset (shadowStyle s) (outlineLayer P img s)"
  by (simp add: beforeCutout_def outlineLayer_def)

lemma beforeCutout_dims [simp]:
  "cvWidth (beforeCutout P img s) = reflectedDim 300 (requestedWidth img s)"
  "cvHeight (beforeCutout P img s) = reflectedDim 150 (requestedHeight img s)"
  by (simp_all add: beforeCutout_outlineLayer)

lemma renderSticker_dims [simp]:
  "cvWidth (renderSticker P img s) = reflectedDim 300 (requestedWidth img s)"
  "cvHeight (renderSticker P img s) = reflectedDim 150 (requestedHeight img s)"
  by (simp_all add: renderSticker_def)

lemma addStickerOutline_Inr:
  assumes "addStickerOutline P (Some img) s = Inr c"
  shows "c = renderSticker P img s"
  using assms by (auto simp: addStickerOutline_def split: if_splits)

lemma reflectedDim_in_range:
  assumes "0 \<le> x" "x < 2147483648"
  shows "reflectedDim d x = \<lfloor>x\<rfloor>"
proof -
  have lo: "0 \<le> \<lfloor>x\<rfloor>" using assms(1) by simp
  have hi: "\<lfloor>x\<rfloor> < 2147483648" using assms(2) by (simp add: floor_less_iff)
  have "\<lfloor>x\<rfloor> mod 4294967296 = \<lfloor>x\<rfloor>" using lo hi by simp
  then show ?thesis using assms(1) hi by (simp add: reflectedDim_def toUnsignedLong_def Let_def)
qed

lemma outlinePadD_ge4: "4 \<le> outlinePadD s"
  by (simp add: outlinePadD_def)

lemma shadowPad_ge0: "0 \<le> shadowPad s"
  by (simp add: shadowPad_def)

lemma doubledPad_ge8: "8 \<le> fl (outlinePadD s * 2)"
proof -
  have "8 \<le> outlinePadD s * 2" using outlinePadD_ge4 [of s] by simp
  then have "fl 8 \<le> fl (outlinePadD s * 2)" by (rule fl_mono)
  then show ?thesis by simp
qed

lemma moderate_no_overflow:
  assumes "moderateSettings s"
  shows "\<bar>fl (outlineWidth s * masterAmp s)\<bar> \<le> 2 ^ 600"
    and "\<bar>fl (amp (wave1 s) + amp (wave2 s))\<bar> \<le> 2 ^ 301"
    and "\<bar>fl (fl (amp (wave1 s) + amp (wave2 s)) + amp (wave3 s))\<bar> \<le> 2 ^ 302"
    and "\<bar>wobbleExtraD s\<bar> \<le> 2 ^ 902"
    and "\<bar>fl (outlineWidth s + wobbleExtraD s)\<bar> \<le> 2 ^ 903"
    and "outlinePadD s \<le> 2 ^ 904"
    and "fl (outlinePadD s * 2) \<le> 2 ^ 905"
proof -
  let ?w = "outlineWidth s" and ?m = "masterAmp s"
  let ?a1 = "amp (wave1 s)" and ?a2 = "amp (wave2 s)" and ?a3 = "amp (wave3 s)"
  from assms have w: "\<bar>?w\<bar> \<le> 2 ^ 300" and m: "\<bar>?m\<bar> \<le> 2 ^ 300"
    and a1: "\<bar>?a1\<bar> \<le> 2 ^ 300" and a2: "\<bar>?a2\<bar> \<le> 2 ^ 300" and a3: "\<bar>?a3\<bar> \<le> 2 ^ 300"
    by (simp_all add: moderateSettings_def)
  have "\<bar>?w * ?m\<bar> \<le> 2 ^ 300 * 2 ^ 300"
    unfolding abs_mult using w m by (intro mult_mono) simp_all
  then have "\<bar>?w * ?m\<bar> \<le> 2 ^ 600" by (simp add: power_add [symmetric])
  then show X: "\<bar>fl (?w * ?m)\<bar> \<le> 2 ^ 600" by (rule fl_bound)
  have "\<bar>?a1 + ?a2\<bar> \<le> 2 ^ 300 + 2 ^ 300" using a1 a2 by linarith
  then have "\<bar>?a1 + ?a2\<bar> \<le> 2 ^ 301" by simp
  then show S1: "\<bar>fl (?a1 + ?a2)\<bar> \<le> 2 ^ 301" by (rule fl_bound)
  have "\<bar>fl (?a1 + ?a2) + ?a3\<bar> \<le> 2 ^ 301 + 2 ^ 300" using S1 a3 by linarith
  then have "\<bar>fl (?a1 + ?a2) + ?a3\<bar> \<le> 2 ^ 302" by simp
  then show S: "\<bar>fl (fl (?a1 + ?a2) + ?a3)\<bar> \<le> 2 ^ 302" by (rule fl_bound)
  have "\<bar>fl (?w * ?m) * fl (fl (?a1 + ?a2) + ?a3)\<bar> \<le> 2 ^ 600 * 2 ^ 302"
    unfolding abs_mult using X S by (intro mult_mono) simp_all
  then have "\<bar>fl (?w * ?m) * fl (fl (?a1 + ?a2) + ?a3)\<bar> \<le> 2 ^ 902"
    by (simp add: power_add [symmetric])
  then have "\<bar>fl (fl (?w * ?m) * fl (fl (?a1 + ?a2) + ?a3))\<bar> \<le> 2 ^ 902" by (rule fl_bound)
  then show W: "\<bar>wobbleExtraD s\<bar> \<le> 2 ^ 902" by (simp add: wobbleExtraD_def)
  have "\<bar>?w + wobbleExtraD s\<bar> \<le> 2 ^ 300 + 2 ^ 902" using w W by linarith
  also have "(2::real) ^ 300 + 2 ^ 902 \<le> 2 ^ 903" by simp
  finally show Q: "\<bar>fl (?w + wobbleExtraD s)\<bar> \<le> 2 ^ 903" by (rule fl_bound)
  have "\<bar>fl (?w + wobbleExtraD s) + 4\<bar> \<le> 2 ^ 903 + 4" using Q by linarith
  also have "(2::real) ^ 903 + 4 \<le> 2 ^ 904" by simp
  finally have "\<bar>fl (fl (?w + wobbleExtraD s) + 4)\<bar> \<le> 2 ^ 904" by (rule fl_bound)
  then show P: "outlinePadD s \<le> 2 ^ 904" by (simp add: outlinePadD_def abs_le_iff)
  have "\<bar>outlinePadD s * 2\<bar> \<le> 2 ^ 905" using P outlinePadD_ge4 [of s] by simp
  then have "\<bar>fl (outlinePadD s * 2)\<bar> \<le> 2 ^ 905" by (rule fl_bound)
  then show "fl (outlinePadD s * 2) \<le> 2 ^ 905" by (simp add: abs_le_iff)
qed

lemma paddedSum_ge:
  assumes "fl (fl (real n + fl (outlinePadD s * 2)) + shadowPad s) < 2147483648"
  shows "real n + 8 \<le> fl (fl (real n + fl (outlinePadD s * 2)) + shadowPad s)"
proof -
  let ?p = "fl (outlinePadD s * 2)"
  let ?inner = "fl (real n + ?p)"
  have p: "8 \<le> ?p" by (rule doubledPad_ge8)
  have sp: "0 \<le> shadowPad s" by (rule shadowPad_ge0)
  have small: "n < 2147483648"
  proof (rule ccontr)
    assume "\<not> n < 2147483648"
    then have "(2147483648::real) \<le> real n" by simp
    then have "2147483648 \<le> real n + ?p" using p by simp
    then have "fl 2147483648 \<le> ?inner" by (rule fl_mono)
    then have "2147483648 \<le> ?inner + shadowPad s" using sp by simp
    then have "fl 2147483648 \<le> fl (?inner + shadowPad s)" by (rule fl_mono)
    with assms show False by simp
  qed
  then have "n + 8 < 2 ^ 53" by simp
  then have ex: "fl (real (n + 8)) = real (n + 8)" by (rule fl_of_nat)
  have "real (n + 8) \<le> real n + ?p" using p by simp
  then have "fl (real (n + 8)) \<le> ?inner" by (rule fl_mono)
  then have "real (n + 8) \<le> ?inner + shadowPad s" using sp ex by simp
  then have "fl (real (n + 8)) \<le> fl (?inner + shadowPad s)" by (rule fl_mono)
  then show ?thesis using ex by simp
qed

lemma requested_ge:
  "requestedWidth img s < 2147483648 \<Longrightarrow> real (imgWidth img) + 8 \<le> requestedWidth img s"
  "requestedHeight img s < 2147483648 \<Longrightarrow> real (imgHeight img) + 8 \<le> requestedHeight img s"
  unfolding requestedWidth_def requestedHeight_def by (rule paddedSum_ge, assumption)+

lemma requested_nonneg:
  "0 \<le> requestedWidth img s" "0 \<le> requestedHeight img s"
proof -
  have "\<And>n. 0 \<le> fl (fl (real n + fl (outlinePadD s * 2)) + shadowPad s)"
  proof -
    fix n :: nat
    have "0 \<le> real n + fl (outlinePadD s * 2)" using doubledPad_ge8 [of s] by simp
    then have "0 \<le> fl (real n + fl (outlinePadD s * 2))" by (rule fl_nonneg)
    then have "0 \<le> fl (real n + fl (outlinePadD s * 2)) + shadowPad s"
      using shadowPad_ge0 [of s] by simp
    then show "0 \<le> fl (fl (real n + fl (outlinePadD s * 2)) + shadowPad s)" by (rule fl_nonneg)
  qed
  then show "0 \<le> requestedWidth img s" "0 \<le> requestedHeight img s"
    by (simp_all add: requestedWidth_def requestedHeight_def)
qed

lemma canvas_dims_in_range:
  "requestedWidth img s < 2147483648 \<Longrightarrow>
     reflectedDim 300 (requestedWidth img s) = \<lfloor>requestedWidth img s\<rfloor>"
  "requestedHeight img s < 2147483648 \<Longrightarrow>
     reflectedDim 150 (requestedHeight img s) = \<lfloor>requestedHeight img s\<rfloor>"
  using requested_nonneg [of img s] by (simp_all add: reflectedDim_in_range)

lemma solid_integer_sum:
  assumes "outlineStyle s = Solid" and "outlineWidth s = real n"
    and "fl (fl (real k + fl (outlinePadD s * 2)) + shadowPad s) < 2147483648"
  shows "outlinePadD s = real n + 4"
    and "fl (fl (real k + fl (outlinePadD s * 2)) + shadowPad s) =
           real k + 2 * (real n + 4) + shadowPad s"
proof -
  have pad: "outlinePadD s = max (fl (fl (real n) + 4)) 4"
    using assms(1,2) by (simp add: outlinePadD_def wobbleExtraD_def)
  have sp: "0 \<le> shadowPad s" by (rule shadowPad_ge0)
  have n: "n < 2147483648"
  proof (rule ccontr)
    assume "\<not> n < 2147483648"
    then have "(2147483648::real) \<le> real n" by simp
    then have "fl 2147483648 \<le> fl (real n)" by (rule fl_mono)
    then have "2147483648 \<le> fl (real n) + 4" by simp
    then have "fl 2147483648 \<le> fl (fl (real n) + 4)" by (rule fl_mono)
    then have "2147483648 \<le> outlinePadD s * 2" unfolding pad by simp
    then have "fl 2147483648 \<le> fl (outlinePadD s * 2)" by (rule fl_mono)
    then have "2147483648 \<le> real k + fl (outlinePadD s * 2)" by simp
    then have "fl 2147483648 \<le> fl (real k + fl (outlinePadD s * 2))" by (rule fl_mono)
    then have "2147483648 \<le> fl (real k + fl (outlinePadD s * 2)) + shadowPad s"
      using sp by simp
    then have "fl 2147483648 \<le> fl (fl (real k + fl (outlinePadD s * 2)) + shadowPad s)"
      by (rule fl_mono)
    with assms(3) show False by simp
  qed
  have k: "k < 2147483648"
    using paddedSum_ge [OF assms(3)] assms(3) by simp
  have e1: "fl (real n) = real n" using n by (intro fl_of_nat) simp
  have "fl (real (n + 4)) = real (n + 4)" using n by (intro fl_of_nat) simp
  then have e2: "fl (real n + 4) = real n + 4" by simp
  show p: "outlinePadD s = real n + 4" unfolding pad e1 e2 by simp
  have "fl (real (2 * (n + 4))) = real (2 * (n + 4))" using n by (intro fl_of_nat) simp
  then have e3: "fl (outlinePadD s * 2) = 2 * (real n + 4)" unfolding p by (simp add: algebra_simps)
  have "fl (real (k + 2 * (n + 4))) = real (k + 2 * (n + 4))"
    using n k by (intro fl_of_nat) simp
  then have e4: "fl (real k + 2 * (real n + 4)) = real k + 2 * (real n + 4)"
    by (simp add: algebra_simps)
  have "fl (real (k + 2 * (n + 4) + 30)) = real (k + 2 * (n + 4) + 30)"
    using n k by (intro fl_of_nat) simp
  then have e5: "fl (real k + 2 * (real n + 4) + 30) = real k + 2 * (real n + 4) + 30"
    by (simp add: algebra_simps)
  show "fl (fl (real k + fl (outlinePadD s * 2)) + shadowPad s) =
           real k + 2 * (real n + 4) + shadowPad s"
    unfolding e3 e4 using e4 e5 by (simp add: shadowPad_def)
qed

lemma floor_nat_sum:
  "\<lfloor>real k + 2 * (real n + 4) + (if b then 0 else 30)\<rfloor> =
     int k + 2 * (int n + 4) + (if b then 0 else 30)"
proof -
  have "real k + 2 * (real n + 4) + (if b then 0 else 30) =
      real_of_int (int k + 2 * (int n + 4) + (if b then 0 else 30))" by simp
  then show ?thesis by (simp only: floor_of_int)
qed

lemma centred_draw:
  "drawAt P img (0, 0) c =
     drawImage P img ((real_of_int (cvWidth c) - real (imgWidth img)) / 2)
       ((real_of_int (cvHeight c) - real (imgHeight img)) / 2) c"
  by (simp add: drawAt_def drawPos_def cx_def cy_def diff_divide_distrib)

subsection \<open>The outline layer, the fill and the shadow preset\<close>

lemma outlineLayer_fill:
  assumes "0 < outlineWidth s"
  shows "outlineLayer P img s = fillOutline P s (dilated P img s)"
  using assms by (simp add: outlineLayer_def dilated_def solidOutline_def waveOutline_def)

lemma outlineLayer_skip:
  assumes "outlineWidth s \<le> 0"
  shows "outlineLayer P img s = sizedCanvas img s"
  using assms by (simp add: outlineLayer_def solidOutline_def waveOutline_def)

lemma dilated_ctx [simp]:
  "cvWidth (dilated P img s) = reflectedDim 300 (requestedWidth img s)"
  "cvHeight (dilated P img s) = reflectedDim 150 (requestedHeight img s)"
  "shadowColor (dilated P img s) = transparent"
  by (simp_all add: dilated_def)

lemma overlap_unit:
  assumes "0 \<le> p" "p < n"
  shows "overlap 0 (real_of_int n) p = 1"
proof -
  have "real_of_int p + 1 \<le> real_of_int n" using assms(2) by linarith
  moreover have "0 \<le> real_of_int p" using assms(1) by simp
  ultimately show ?thesis by (simp add: overlap_def min_def max_def)
qed

lemma fillOutline_fillStyle:
  "fillStyle (fillOutline P s c) =
     (case cssColor P (outlineColor s) of None \<Rightarrow> fillStyle c | Some col \<Rightarrow> col)"
  by (simp add: fillOutline_def Let_def fillRect_def setFillStyle_def split: option.splits)

lemma fillOutline_pixel:
  assumes "alpha (shadowColor c) = 0"
    and "0 \<le> x" "x < cvWidth c" "0 \<le> y" "y < cvHeight c"
  shows "bitmap (fillOutline P s c) (x, y) =
           blend SourceIn (premultiply (fillStyle (fillOutline P s c))) (bitmap c (x, y))"
  using assms
  by (simp add: fillOutline_def Let_def fillRect_def paintLayer_def shadowsActive_def
      compositeLayer_def rectLayer_def overlap_unit blend_def)

lemma dilated_fillStyle [simp]: "fillStyle (dilated P img s) = black 1"
  by (simp add: dilated_def sizedCanvas_def setWidth_def setHeight_def createCanvas_def)

lemma alphaByte_one [simp]: "alphaByte 1 = 255"
  using roundEven_of_int [of 255] by (simp add: alphaByte_def)

lemma shadowPreset_Float:
  "shadowColor (shadowPreset Float c) = black (18 / 100)"
  "shadowBlur (shadowPreset Float c) = 28"
  "shadowOffsetX (shadowPreset Float c) = 0"
  "shadowOffsetY (shadowPreset Float c) = 12"
  by (simp_all add: shadowPreset_def)

lemma canvas_dims_ge:
  "requestedWidth img s < 2147483648 \<Longrightarrow>
     int (imgWidth img) + 8 \<le> reflectedDim 300 (requestedWidth img s)"
  "requestedHeight img s < 2147483648 \<Longrightarrow>
     int (imgHeight img) + 8 \<le> reflectedDim 150 (requestedHeight img s)"
proof -
  {
    assume lt: "requestedWidth img s < 2147483648"
    have "real_of_int (int (imgWidth img) + 8) \<le> requestedWidth img s"
      using requested_ge(1) [OF lt] by simp
    then have "int (imgWidth img) + 8 \<le> \<lfloor>requestedWidth img s\<rfloor>" by (simp only: le_floor_iff)
    then show "int (imgWidth img) + 8 \<le> reflectedDim 300 (requestedWidth img s)"
      using canvas_dims_in_range(1) [OF lt] by simp
  }
  {
    assume lt: "requestedHeight img s < 2147483648"
    have "real_of_int (int (imgHeight img) + 8) \<le> requestedHeight img s"
      using requested_ge(2) [OF lt] by simp
    then have "int (imgHeight img) + 8 \<le> \<lfloor>requestedHeight img s\<rfloor>" by (simp only: le_floor_iff)
    then show "int (imgHeight img) + 8 \<le> reflectedDim 150 (requestedHeight img s)"
      using canvas_dims_in_range(2) [OF lt] by simp
  }
qed

lemma shadow_sum_range:
  assumes "0 \<le> y" and "fl (y + 30) < 2147483648"
  shows "y < 2147483648" and "\<lfloor>fl (y + 30)\<rfloor> - \<lfloor>y\<rfloor> \<in> {30, 31}"
proof -
  have y30: "y + 30 < 2147483648"
  proof (rule ccontr)
    assume "\<not> y + 30 < 2147483648"
    then have "2147483648 \<le> y + 30" by simp
    then have "fl 2147483648 \<le> fl (y + 30)" by (rule fl_mono)
    with assms(2) show False by simp
  qed
  then show "y < 2147483648" by simp
  define n where "n = \<lfloor>y\<rfloor>"
  have n0: "0 \<le> n" using assms(1) by (simp add: n_def)
  have lo: "real_of_int n \<le> y" and hi: "y < real_of_int n + 1" unfolding n_def by linarith+
  have nb: "n < 2147483648" using lo y30 by linarith
  have e1: "fl (real_of_int (n + 30)) = real_of_int (n + 30)"
    using n0 nb by (intro fl_of_int) simp
  have e2: "fl (real_of_int (n + 31)) = real_of_int (n + 31)"
    using n0 nb by (intro fl_of_int) simp
  have "real_of_int (n + 30) \<le> y + 30" using lo by simp
  then have "fl (real_of_int (n + 30)) \<le> fl (y + 30)" by (rule fl_mono)
  then have "real_of_int (n + 30) \<le> fl (y + 30)" unfolding e1 .
  then have a: "n + 30 \<le> \<lfloor>fl (y + 30)\<rfloor>" by (simp only: le_floor_iff)
  have "y + 30 \<le> real_of_int (n + 31)" using hi by simp
  then have "fl (y + 30) \<le> fl (real_of_int (n + 31))" by (rule fl_mono)
  then have "fl (y + 30) \<le> real_of_int (n + 31)" unfolding e2 .
  then have "\<lfloor>fl (y + 30)\<rfloor> \<le> \<lfloor>real_of_int (n + 31)\<rfloor>" by (rule floor_mono)
  then have b: "\<lfloor>fl (y + 30)\<rfloor> \<le> n + 31" by (simp only: floor_of_int)
  from a b have "\<lfloor>fl (y + 30)\<rfloor> - n = 30 \<or> \<lfloor>fl (y + 30)\<rfloor> - n = 31" by linarith
  then show "\<lfloor>fl (y + 30)\<rfloor> - \<lfloor>y\<rfloor> \<in> {30, 31}" unfolding n_def by simp
qed

lemma unshadowed_requested:
  "requestedWidth img (s\<lparr>shadowStyle := ShadowNone\<rparr>) =
     fl (real (imgWidth img) + fl (outlinePadD s * 2))"
  "requestedHeight img (s\<lparr>shadowStyle := ShadowNone\<rparr>) =
     fl (real (imgHeight img) + fl (outlinePadD s * 2))"
  by (simp_all add: requestedWidth_def requestedHeight_def shadowPad_def outlinePadD_def
      wobbleExtraD_def)

lemma shadowed_dim_gain:
  assumes "shadowPad s = 30"
  shows "requestedWidth img s < 2147483648 \<Longrightarrow>
           reflectedDim 300 (requestedWidth img s) -
           reflectedDim 300 (requestedWidth img (s\<lparr>shadowStyle := ShadowNone\<rparr>)) \<in> {30, 31}"
    and "requestedHeight img s < 2147483648 \<Longrightarrow>
           reflectedDim 150 (requestedHeight img s) -
           reflectedDim 150 (requestedHeight img (s\<lparr>shadowStyle := ShadowNone\<rparr>)) \<in> {30, 31}"
proof -
  let ?s0 = "s\<lparr>shadowStyle := ShadowNone\<rparr>"
  {
    assume lt: "requestedWidth img s < 2147483648"
    have r: "requestedWidth img s = fl (requestedWidth img ?s0 + 30)"
      unfolding unshadowed_requested by (simp add: requestedWidth_def assms)
    have y0: "0 \<le> requestedWidth img ?s0" by (rule requested_nonneg)
    have lt': "fl (requestedWidth img ?s0 + 30) < 2147483648" using lt r by simp
    note sr = shadow_sum_range [OF y0 lt']
    have "reflectedDim 300 (requestedWidth img ?s0) = \<lfloor>requestedWidth img ?s0\<rfloor>"
      using sr(1) by (rule canvas_dims_in_range)
    moreover have "reflectedDim 300 (requestedWidth img s) = \<lfloor>fl (requestedWidth img ?s0 + 30)\<rfloor>"
      using canvas_dims_in_range(1) [OF lt] r by simp
    ultimately show "reflectedDim 300 (requestedWidth img s) -
           reflectedDim 300 (requestedWidth img ?s0) \<in> {30, 31}"
      using sr(2) by simp
  }
  {
    assume lt: "requestedHeight img s < 2147483648"
    have r: "requestedHeight img s = fl (requestedHeight img ?s0 + 30)"
      unfolding unshadowed_requested by (simp add: requestedHeight_def assms)
    have y0: "0 \<le> requestedHeight img ?s0" by (rule requested_nonneg)
    have lt': "fl (requestedHeight img ?s0 + 30) < 2147483648" using lt r by simp
    note sr = shadow_sum_range [OF y0 lt']
    have "reflectedDim 150 (requestedHeight img ?s0) = \<lfloor>requestedHeight img ?s0\<rfloor>"
      using sr(1) by (rule canvas_dims_in_range)
    moreover have "reflectedDim 150 (requestedHeight img s) = \<lfloor>fl (requestedHeight img ?s0 + 30)\<rfloor>"
      using canvas_dims_in_range(2) [OF lt] r by simp
    ultimately show "reflectedDim 150 (requestedHeight img s) -
           reflectedDim 150 (requestedHeight img ?s0) \<in> {30, 31}"
      using sr(2) by simp
  }
qed

lemma half_gain:
  assumes "(a::int) - b \<in> {30, 31}"
  shows "real_of_int a / 2 - k + 0 - (real_of_int b / 2 - k + 0) \<in> {15, 31 / 2}"
proof -
  from assms have "a = b + 30 \<or> a = b + 31" by auto
  then show ?thesis by (auto simp: add_divide_distrib)
qed

subsection \<open>Stamps that land on one pixel\<close>

lemma unat_byte_of_nat: "n < 256 \<Longrightarrow> unat (of_nat n :: byte) = n"
  by (simp add: unsigned_of_nat take_bit_nat_eq_self)

lemma drawAt_pixel:
  assumes "\<not> shadowsActive c" and "globalCompositeOperation c = SourceOver"
    and "0 \<le> x" "x < cvWidth c" "0 \<le> y" "y < cvHeight c"
  shows "bitmap (drawAt P img off c) (x, y) =
           blend SourceOver
             (rasterise P img (fst (drawPos img c off)) (snd (drawPos img c off)) (x, y))
             (bitmap c (x, y))"
  using assms by (simp add: drawAt_def drawImage_def paintLayer_def compositeLayer_def)

lemma drawAt_frame [simp]:
  "shadowsActive (drawAt P img off c) = shadowsActive c"
  "drawPos img (drawAt P img off c) off' = drawPos img c off'"
  by (simp_all add: shadowsActive_def drawPos_def cx_def cy_def)

lemma stampAll_pixel:
  assumes "\<forall>st \<in> set sts.
             rasterise P img (fst (drawPos img c (stampOffset st)))
               (snd (drawPos img c (stampOffset st))) (x, y) = A"
    and "\<not> shadowsActive c" and "globalCompositeOperation c = SourceOver"
    and "0 \<le> x" "x < cvWidth c" "0 \<le> y" "y < cvHeight c"
  shows "bitmap (stampAll P img sts c) (x, y) =
           ((blend SourceOver A) ^^ length sts) (bitmap c (x, y))"
  using assms
proof (induction sts arbitrary: c)
  case Nil
  then show ?case by (simp add: stampAll_def)
next
  case (Cons st sts)
  let ?c' = "drawAt P img (stampOffset st) c"
  have step: "bitmap ?c' (x, y) = blend SourceOver A (bitmap c (x, y))"
    using Cons.prems by (simp add: drawAt_pixel)
  have "bitmap (stampAll P img sts ?c') (x, y) =
      ((blend SourceOver A) ^^ length sts) (bitmap ?c' (x, y))"
    using Cons.prems by (intro Cons.IH) simp_all
  then show ?case
    unfolding step by (simp add: stampAll_def funpow_swap1)
qed

lemma faint_stack:
  "n \<le> 128 \<Longrightarrow>
     ((blend SourceOver \<lparr>red = 1, green = 1, blue = 1, alpha = 1\<rparr>) ^^ n) transparent =
       \<lparr>red = of_nat n, green = of_nat n, blue = of_nat n, alpha = of_nat n\<rparr>"
proof (induction n)
  case 0
  then show ?case by (simp add: transparent_def)
next
  case (Suc n)
  then have n: "n \<le> 127" by simp
  have u: "unat (of_nat n :: byte) = n" using n by (intro unat_byte_of_nat) simp
  have "(n * 254 + 127) div 255 = n"
    using n by (intro div_nat_eqI) simp_all
  then have m: "mul255 (of_nat n) 254 = of_nat n" by (simp add: mul255_def u)
  have a: "addSat 1 (of_nat n) = (of_nat (Suc n) :: byte)"
    using n by (simp add: addSat_def u)
  show ?case using Suc.IH n by (simp add: blend_def m a del: of_nat_Suc)
qed

subsection \<open>The object URL and the last draw\<close>

lemma addStickerOutlineUrl_Inr:
  assumes "addStickerOutline P cutout s = Inr c"
  shows "addStickerOutlineUrl P cutout s b =
           (Inr (urlCounter b),
            b\<lparr>urlCounter := Suc (urlCounter b),
              blobStore := (blobStore b)(urlCounter b \<mapsto> pngBytes P c)\<rparr>)"
  using assms by (simp add: addStickerOutlineUrl_def createObjectURL_def)

lemma addStickerOutlineUrl_Inl:
  assumes "addStickerOutline P cutout s = Inl err"
  shows "addStickerOutlineUrl P cutout s b = (Inl err, b)"
  using assms by (simp add: addStickerOutlineUrl_def)

lemma beforeCutout_op [simp]: "globalCompositeOperation (beforeCutout P img s) = SourceOver"
  by (simp add: beforeCutout_outlineLayer)

lemma renderSticker_pixel:
  assumes "0 \<le> x" and "x < cvWidth (renderSticker P img s)"
    and "0 \<le> y" and "y < cvHeight (renderSticker P img s)"
  shows "bitmap (renderSticker P img s) (x, y) =
           blend SourceOver
             (rasterise P img (sideMarginX img (beforeCutout P img s))
                (sideMarginY img (beforeCutout P img s)) (x, y))
             (if shadowsActive (beforeCutout P img s)
              then blend SourceOver
                     (castShadow P (shadowColor (beforeCutout P img s))
                        (shadowBlur (beforeCutout P img s))
                        (shadowOffsetX (beforeCutout P img s))
                        (shadowOffsetY (beforeCutout P img s))
                        (rasterise P img (sideMarginX img (beforeCutout P img s))
                           (sideMarginY img (beforeCutout P img s))) (x, y))
                     (bitmap (beforeCutout P img s) (x, y))
              else bitmap (beforeCutout P img s) (x, y))"
proof -
  have x: "x < cvWidth (beforeCutout P img s)" and y: "y < cvHeight (beforeCutout P img s)"
    using assms(2,4) by simp_all
  show ?thesis
    using assms(1,3) x y
    by (cases "shadowsActive (beforeCutout P img s)")
      (simp_all add: renderSticker_def drawAt_def drawImage_def paintLayer_def compositeLayer_def
        sideMarginX_def sideMarginY_def)
qed

subsection \<open>The ring loop\<close>

lemma ringsFrom_bounds: "r \<in> set (ringsFrom r0) \<Longrightarrow> 0 < r \<and> r \<le> r0"
proof (induction r0 rule: ringsFrom.induct)
  case (1 r0)
  show ?case
  proof (cases "r0 > 0")
    case True
    with "1.prems" have "r = r0 \<or> r \<in> set (ringsFrom (r0 - 2))"
      by (subst (asm) ringsFrom.simps) simp
    then show ?thesis using "1.IH" [OF True] True by auto
  next
    case False
    with "1.prems" show ?thesis by (subst (asm) ringsFrom.simps) simp
  qed
qed

lemma ringsFrom_closed: "ringsFrom r = map (\<lambda>k. r - 2 * real k) [0..<nat \<lceil>r / 2\<rceil>]"
proof (induction r rule: ringsFrom.induct)
  case (1 r)
  show ?case
  proof (cases "r > 0")
    case True
    have c: "\<lceil>(r - 2) / 2\<rceil> = \<lceil>r / 2\<rceil> - 1"
      by (simp add: diff_divide_distrib)
    have pos: "\<lceil>r / 2\<rceil> \<ge> 1" using True by (simp add: one_le_ceiling)
    have n: "nat \<lceil>r / 2\<rceil> = Suc (nat \<lceil>(r - 2) / 2\<rceil>)"
      using pos c by linarith
    have "ringsFrom r = r # ringsFrom (r - 2)"
      using True by (subst ringsFrom.simps) simp
    also have "\<dots> = r # map (\<lambda>k. (r - 2) - 2 * real k) [0..<nat \<lceil>(r - 2) / 2\<rceil>]"
      using "1.IH" [OF True] by simp
    also have "\<dots> = map (\<lambda>k. r - 2 * real k) [0..<nat \<lceil>r / 2\<rceil>]"
      unfolding n by (simp add: upt_rec [of 0] map_Suc_upt [symmetric] del: upt_Suc algebra_simps)
    finally show ?thesis .
  next
    case False
    then have "nat \<lceil>r / 2\<rceil> = 0" by (simp add: ceiling_le_zero)
    moreover have "ringsFrom r = []" using False by (subst ringsFrom.simps) simp
    ultimately show ?thesis by simp
  qed
qed

lemma ring_of_solidRing: "stRing ` set (solidRing r) = {r}"
proof -
  define st where "st = \<lparr>stAngle = angleOf 0, stRing = r, stRadius = r\<rparr>"
  have st: "st \<in> set (solidRing r)"
    unfolding solidRing_def steps_def set_map set_upt st_def
    by (rule image_eqI [where x = 0]) simp_all
  have all: "\<And>st. st \<in> set (solidRing r) \<Longrightarrow> stRing st = r"
    by (auto simp: solidRing_def)
  show ?thesis
  proof
    show "stRing ` set (solidRing r) \<subseteq> {r}" using all by auto
    show "{r} \<subseteq> stRing ` set (solidRing r)"
      using st all [OF st] by (metis empty_subsetI image_eqI insert_subset)
  qed
qed

subsection \<open>Sample runs\<close>

lemma fl_literals:
  "fl (6 / 5) = 5404319552844595 / 4503599627370496"
  "fl (4 / 5) = 3602879701896397 / 4503599627370496"
  "fl (3 / 10) = 5404319552844595 / 18014398509481984"
proof -
  show "fl (6 / 5) = 5404319552844595 / 4503599627370496"
    by (subst fl_eval [where e = 0]) (simp_all add: roundEven_def)
  show "fl (4 / 5) = 3602879701896397 / 4503599627370496"
    by (subst fl_eval [where e = "- 1"]) (simp_all add: roundEven_def)
  show "fl (3 / 10) = 5404319552844595 / 18014398509481984"
    by (subst fl_eval [where e = "- 2"]) (simp_all add: roundEven_def)
qed

lemma wobbly_wobbleExtraD: "wobbleExtraD wobblySettings = 2589569785738035 / 70368744177664"
proof -
  have s3: "fl (41433116571808563 / 18014398509481984) = 2589569785738035 / 1125899906842624"
    by (subst fl_eval [where e = 1]) (simp_all add: roundEven_def)
  have pr: "fl (2589569785738035 / 70368744177664) = 2589569785738035 / 70368744177664"
    using fl_dyadic [of 2589569785738035 46] by simp
  show ?thesis
    by (simp add: wobbleExtraD_def wobblySettings_def DEFAULT_SETTINGS_def fl_literals s3 pr)
qed

lemma wobbly_outlinePadD: "outlinePadD wobblySettings = 3433994715870003 / 70368744177664"
proof -
  have a: "fl (3152519739159347 / 70368744177664) = 3152519739159347 / 70368744177664"
    using fl_dyadic [of 3152519739159347 46] by simp
  have b: "fl (3433994715870003 / 70368744177664) = 3433994715870003 / 70368744177664"
    using fl_dyadic [of 3433994715870003 46] by simp
  have w: "outlineWidth wobblySettings = 8"
    by (simp add: wobblySettings_def DEFAULT_SETTINGS_def)
  show ?thesis
    unfolding outlinePadD_def wobbly_wobbleExtraD w by (simp add: a b)
qed

lemma wobbly_requested:
  "requestedWidth (square 100) wobblySettings = 6952431924753203 / 35184372088832"
  "requestedHeight (square 100) wobblySettings = 6952431924753203 / 35184372088832"
proof -
  have a: "fl (3433994715870003 / 35184372088832) = 3433994715870003 / 35184372088832"
    using fl_dyadic [of 3433994715870003 45] by simp
  have b: "fl (6952431924753203 / 35184372088832) = 6952431924753203 / 35184372088832"
    using fl_dyadic [of 6952431924753203 45] by simp
  have sp: "shadowPad wobblySettings = 0"
    by (simp add: shadowPad_def wobblySettings_def DEFAULT_SETTINGS_def)
  show "requestedWidth (square 100) wobblySettings = 6952431924753203 / 35184372088832"
    "requestedHeight (square 100) wobblySettings = 6952431924753203 / 35184372088832"
    by (simp_all add: requestedWidth_def requestedHeight_def wobbly_outlinePadD square_def sp a b)
qed

lemma float_requested:
  "requestedWidth (square 100) floatSettings = 154"
  "requestedHeight (square 100) floatSettings = 154"
  "outlinePadD floatSettings = 12"
  by (simp_all add: requestedWidth_def requestedHeight_def square_def floatSettings_def
      DEFAULT_SETTINGS_def outlinePadD_def wobbleExtraD_def shadowPad_def)

lemma huge_requested:
  "requestedWidth (square 400) hugeSettings = 4294967296"
  "requestedHeight (square 400) hugeSettings = 4294967296"
  by (simp_all add: requestedWidth_def requestedHeight_def square_def hugeSettings_def
      outlinePadD_def wobbleExtraD_def shadowPad_def)

lemma refPlatform_ok [simp]:
  "contextOk refPlatform w h" "encoderOk refPlatform w h"
  by (simp_all add: refPlatform_def)

lemma wobbly_dims:
  "cvWidth wobblySticker = 197" "cvHeight wobblySticker = 197"
  by (simp_all add: wobblySticker_def wobbly_requested reflectedDim_def toUnsignedLong_def)

lemma wobbly_run:
  "addStickerOutline refPlatform (Some (square 100)) wobblySettings = Inr wobblySticker"
  using wobbly_dims
  by (simp add: addStickerOutline_def toBlobDelivers_def wobblySticker_def [symmetric])

lemma float_dims:
  "cvWidth floatSticker = 154" "cvHeight floatSticker = 154"
  by (simp_all add: floatSticker_def float_requested reflectedDim_def toUnsignedLong_def)

lemma float_run:
  "addStickerOutline refPlatform (Some (square 100)) floatSettings = Inr floatSticker"
  using float_dims
  by (simp add: addStickerOutline_def toBlobDelivers_def floatSticker_def [symmetric])

lemma huge_dims:
  "cvWidth (renderSticker refPlatform (square 400) hugeSettings) = 0"
  "cvHeight (renderSticker refPlatform (square 400) hugeSettings) = 0"
  by (simp_all add: huge_requested reflectedDim_def toUnsignedLong_def)

lemma default_requested:
  "requestedWidth (square 400) DEFAULT_SETTINGS = 424"
  "requestedHeight (square 400) DEFAULT_SETTINGS = 424"
  by (simp_all add: requestedWidth_def requestedHeight_def square_def
      DEFAULT_SETTINGS_def outlinePadD_def wobbleExtraD_def shadowPad_def)

lemma solidStamps_one: "solidStamps 1 = solidRing 1"
  by (simp add: solidStamps_def ringsFrom.simps)

lemma solidRing_offset:
  assumes "st \<in> set (solidRing 1)"
  shows "\<bar>fst (stampOffset st)\<bar> \<le> 1" and "\<bar>snd (stampOffset st)\<bar> \<le> 1"
  using assms by (auto simp: solidRing_def stampOffset_def)

lemma nearest_near:
  assumes "\<bar>d\<bar> \<le> 1"
  shows "4 \<le> nearest (5 + d)" and "nearest (5 + d) \<le> 6"
  using assms unfolding nearest_def by linarith+

lemma red_requested:
  "requestedWidth (faintSquare 100) redSettings = 110"
  "requestedHeight (faintSquare 100) redSettings = 110"
  by (simp_all add: requestedWidth_def requestedHeight_def faintSquare_def redSettings_def
      DEFAULT_SETTINGS_def outlinePadD_def wobbleExtraD_def shadowPad_def)

lemma faintSquare_dims [simp]:
  "imgWidth (faintSquare n) = n" "imgHeight (faintSquare n) = n"
  by (simp_all add: faintSquare_def)

lemma red_canvas:
  "cvWidth (sizedCanvas (faintSquare 100) redSettings) = 110"
  "cvHeight (sizedCanvas (faintSquare 100) redSettings) = 110"
  by (simp_all add: red_requested reflectedDim_def toUnsignedLong_def)

lemma red_dilated:
  "bitmap (dilated refPlatform (faintSquare 100) redSettings) (55, 55) =
     \<lparr>red = 72, green = 72, blue = 72, alpha = 72\<rparr>"
proof -
  let ?c = "sizedCanvas (faintSquare 100) redSettings"
  have sts: "(if outlineStyle redSettings = Solid then solidStamps (outlineWidth redSettings)
              else waveStamps redSettings) = solidRing 1"
    by (simp add: redSettings_def DEFAULT_SETTINGS_def solidStamps_one)
  have same: "\<forall>st \<in> set (solidRing 1).
      rasterise refPlatform (faintSquare 100) (fst (drawPos (faintSquare 100) ?c (stampOffset st)))
        (snd (drawPos (faintSquare 100) ?c (stampOffset st))) (55, 55) =
      \<lparr>red = 1, green = 1, blue = 1, alpha = 1\<rparr>"
  proof
    fix st assume st: "st \<in> set (solidRing 1)"
    have pos: "drawPos (faintSquare 100) ?c (stampOffset st) =
        (5 + fst (stampOffset st), 5 + snd (stampOffset st))"
      using red_canvas by (simp add: drawPos_def cx_def cy_def faintSquare_dims)
    note nx = nearest_near [OF solidRing_offset(1) [OF st]]
    note ny = nearest_near [OF solidRing_offset(2) [OF st]]
    show "rasterise refPlatform (faintSquare 100) (fst (drawPos (faintSquare 100) ?c (stampOffset st)))
        (snd (drawPos (faintSquare 100) ?c (stampOffset st))) (55, 55) =
      \<lparr>red = 1, green = 1, blue = 1, alpha = 1\<rparr>"
      unfolding pos using nx ny
      by (simp add: refPlatform_def placeImage_def faintSquare_def faintWhite_def premultiply_def
          Let_def)
  qed
  have len: "length (solidRing 1) = 72" by (simp add: solidRing_def steps_def)
  have "bitmap (stampAll refPlatform (faintSquare 100) (solidRing 1) ?c) (55, 55) =
      ((blend SourceOver \<lparr>red = 1, green = 1, blue = 1, alpha = 1\<rparr>) ^^ length (solidRing 1))
        (bitmap ?c (55, 55))"
    using same by (rule stampAll_pixel) (insert red_canvas, simp_all add: shadowsActive_def transparent_def)
  also have "\<dots> = \<lparr>red = 72, green = 72, blue = 72, alpha = 72\<rparr>"
    unfolding len using faint_stack [of 72] by simp
  finally show ?thesis unfolding dilated_def sts .
qed

lemma red_colour:
  "cssColor refPlatform (outlineColor redSettings) =
     Some \<lparr>red = 239, green = 68, blue = 68, alpha = 255\<rparr>"
  by (simp add: refPlatform_def redSettings_def hexByte_def hexDigit_def)

lemma red_outline:
  "bitmap (outlineLayer refPlatform (faintSquare 100) redSettings) (55, 55) =
     \<lparr>red = 67, green = 19, blue = 19, alpha = 72\<rparr>"
proof -
  have w: "0 < outlineWidth redSettings" by (simp add: redSettings_def)
  have sh: "alpha (shadowColor (dilated refPlatform (faintSquare 100) redSettings)) = 0"
    by (simp add: transparent_def)
  have "bitmap (outlineLayer refPlatform (faintSquare 100) redSettings) (55, 55) =
      blend SourceIn
        (premultiply (fillStyle (fillOutline refPlatform redSettings
           (dilated refPlatform (faintSquare 100) redSettings))))
        (bitmap (dilated refPlatform (faintSquare 100) redSettings) (55, 55))"
    unfolding outlineLayer_fill [OF w]
    by (rule fillOutline_pixel [OF sh]) (simp_all add: red_requested reflectedDim_def toUnsignedLong_def)
  then show ?thesis
    unfolding red_dilated fillOutline_fillStyle red_colour
    by (simp add: blend_def premultiply_def mul255_def)
qed

lemma plain_requested:
  "requestedWidth (square 2) plainSettings = 10"
  "requestedHeight (square 2) plainSettings = 10"
  by (simp_all add: requestedWidth_def requestedHeight_def square_def plainSettings_def
      DEFAULT_SETTINGS_def outlinePadD_def wobbleExtraD_def shadowPad_def)

lemma plain_dims:
  "cvWidth (renderSticker refPlatform (square 2) plainSettings) = 10"
  "cvHeight (renderSticker refPlatform (square 2) plainSettings) = 10"
  by (simp_all add: plain_requested reflectedDim_def toUnsignedLong_def)

lemma plain_run:
  "addStickerOutline refPlatform (Some (square 2)) plainSettings =
     Inr (renderSticker refPlatform (square 2) plainSettings)"
  using plain_dims by (simp add: addStickerOutline_def toBlobDelivers_def)

lemma plain_before:
  "beforeCutout refPlatform (square 2) plainSettings = sizedCanvas (square 2) plainSettings"
proof -
  have "outlineWidth plainSettings \<le> 0" by (simp add: plainSettings_def)
  then have "outlineLayer refPlatform (square 2) plainSettings = sizedCanvas (square 2) plainSettings"
    by (rule outlineLayer_skip)
  then show ?thesis
    by (simp add: beforeCutout_outlineLayer shadowPreset_def plainSettings_def DEFAULT_SETTINGS_def)
qed

lemma plain_margin:
  "sideMarginX (square 2) (sizedCanvas (square 2) plainSettings) = 4"
  "sideMarginY (square 2) (sizedCanvas (square 2) plainSettings) = 4"
  using plain_dims
  by (simp_all add: sideMarginX_def sideMarginY_def drawPos_def cx_def cy_def square_def)

lemma rounding_wobbleExtraD:
  "wobbleExtraD roundingSettings = 6333186975989759 / 35184372088832"
proof -
  have a3: "fl (31 / 20) = 6980579422424269 / 4503599627370496"
    by (subst fl_eval [where e = 0]) (simp_all add: roundEven_def)
  have s12: "fl (9232379236109517 / 4503599627370496) = 2308094809027379 / 1125899906842624"
    by (subst fl_eval [where e = 1]) (simp_all add: roundEven_def)
  have s: "fl (16212958658533785 / 4503599627370496) = 2026619832316723 / 562949953421312"
    by (subst fl_eval [where e = 1]) (simp_all add: roundEven_def)
  have pr: "fl (50665495807918075 / 281474976710656) = 6333186975989759 / 35184372088832"
    by (subst fl_eval [where e = 7]) (simp_all add: roundEven_def)
  show ?thesis
    by (simp add: wobbleExtraD_def roundingSettings_def fl_literals a3 s12 s pr)
qed

lemma rounding_outlinePadD:
  "outlinePadD roundingSettings = 7177611906121727 / 35184372088832"
proof -
  have a: "fl (7036874417766399 / 35184372088832) = 7036874417766399 / 35184372088832"
    using fl_dyadic [of 7036874417766399 45] by simp
  have b: "fl (7177611906121727 / 35184372088832) = 7177611906121727 / 35184372088832"
    using fl_dyadic [of 7177611906121727 45] by simp
  have w: "outlineWidth roundingSettings = 20" by (simp add: roundingSettings_def)
  show ?thesis
    unfolding outlinePadD_def rounding_wobbleExtraD w by (simp add: a b)
qed

lemma rounding_requested:
  "requestedWidth (square 100) roundingSettings = 8936830510563327 / 17592186044416"
  "requestedHeight (square 100) roundingSettings = 8936830510563327 / 17592186044416"
proof -
  have a: "fl (7177611906121727 / 17592186044416) = 7177611906121727 / 17592186044416"
    using fl_dyadic [of 7177611906121727 44] by simp
  have b: "fl (8936830510563327 / 17592186044416) = 8936830510563327 / 17592186044416"
    using fl_dyadic [of 8936830510563327 44] by simp
  have sp: "shadowPad roundingSettings = 0" by (simp add: shadowPad_def roundingSettings_def)
  show "requestedWidth (square 100) roundingSettings = 8936830510563327 / 17592186044416"
    "requestedHeight (square 100) roundingSettings = 8936830510563327 / 17592186044416"
    by (simp_all add: requestedWidth_def requestedHeight_def rounding_outlinePadD square_def sp a b)
qed

lemma rounding_dims:
  "cvWidth (renderSticker refPlatform (square 100) roundingSettings) = 507"
  "cvHeight (renderSticker refPlatform (square 100) roundingSettings) = 507"
  by (simp_all add: rounding_requested reflectedDim_def toUnsignedLong_def)

lemma rounding_run:
  "addStickerOutline refPlatform (Some (square 100)) roundingSettings =
     Inr (renderSticker refPlatform (square 100) roundingSettings)"
  using rounding_dims by (simp add: addStickerOutline_def toBlobDelivers_def)

lemma rounding_exact:
  "real (imgWidth (square 100)) + 2 * outlinePad roundingSettings + shadowPad roundingSettings =
     285978576338026501 / 562949953421312"
proof -
  have a3: "fl (31 / 20) = 6980579422424269 / 4503599627370496"
    by (subst fl_eval [where e = 0]) (simp_all add: roundEven_def)
  show ?thesis
    by (simp add: square_def roundingSettings_def outlinePad_def wobbleExtra_def shadowPad_def
        fl_literals a3)
qed

lemma moderate_samples:
  "moderateSettings floatSettings" "moderateSettings roundingSettings"
  "moderateSettings (wobblySettings\<lparr>outlineWidth := - 3\<rparr>)" "moderateSettings hugeSettings"
  "moderateSettings wobblySettings"
proof -
  have big: "(1::real) \<le> 2 ^ 300 / 1024"
  proof -
    have "(2::real) ^ 10 \<le> 2 ^ 300" by (intro power_increasing) simp_all
    then show ?thesis by simp
  qed
  have b: "\<And>x :: real. \<bar>x\<bar> \<le> 2 ^ 40 \<Longrightarrow> \<bar>x\<bar> \<le> 2 ^ 300"
  proof -
    fix x :: real assume "\<bar>x\<bar> \<le> 2 ^ 40"
    moreover have "(2::real) ^ 40 \<le> 2 ^ 300" by (intro power_increasing) simp_all
    ultimately show "\<bar>x\<bar> \<le> 2 ^ 300" by linarith
  qed
  have a3: "fl (31 / 20) = 6980579422424269 / 4503599627370496"
    by (subst fl_eval [where e = 0]) (simp_all add: roundEven_def)
  show "moderateSettings floatSettings"
    unfolding moderateSettings_def
    by (intro conjI b) (simp_all add: floatSettings_def DEFAULT_SETTINGS_def fl_literals)
  show "moderateSettings roundingSettings"
    unfolding moderateSettings_def
    by (intro conjI b) (simp_all add: roundingSettings_def fl_literals a3)
  show "moderateSettings (wobblySettings\<lparr>outlineWidth := - 3\<rparr>)"
    unfolding moderateSettings_def
    by (intro conjI b) (simp_all add: wobblySettings_def DEFAULT_SETTINGS_def fl_literals)
  show "moderateSettings hugeSettings"
    unfolding moderateSettings_def
    by (intro conjI b) (simp_all add: hugeSettings_def)
  show "moderateSettings wobblySettings"
    unfolding moderateSettings_def
    by (intro conjI b) (simp_all add: wobblySettings_def DEFAULT_SETTINGS_def fl_literals)
qed

subsection \<open>The view: invariant and stability\<close>

lemma viewInv_mount: "viewInv P cutout mount"
  by (simp add: viewInv_def mount_def runEffect_def cleanup_def clearTimeout_def Let_def)

lemma clearTimeout_length [simp]: "length (clearTimeout ref gs) = length gs"
  by (simp add: clearTimeout_def split: option.splits)

lemma clearTimeout_nth:
  "g < length gs \<Longrightarrow>
   clearTimeout (Some t) gs ! g =
     (if g = t \<and> stage (gs ! g) = Armed then (gs ! g)\<lparr>stage := Cleared\<rparr> else gs ! g)"
  by (auto simp: clearTimeout_def)

lemma runEffect_other [simp]:
  "stickerUrl (runEffect s v) = stickerUrl v"
  "objectUrls (runEffect s v) = objectUrls v"
  "regenerating (runEffect s v) = regenerating v"
  by (simp_all add: runEffect_def cleanup_def Let_def)

lemma runEffect_length [simp]:
  "length (generations (runEffect s v)) = Suc (length (generations v))"
  by (simp add: runEffect_def cleanup_def Let_def)

lemma runEffect_new [simp]:
  "generations (runEffect s v) ! length (generations v) =
     \<lparr>genSettings = s, cancelled = False, stage = Armed\<rparr>"
  "debounceRef (runEffect s v) = Some (length (generations v))"
  by (simp_all add: runEffect_def cleanup_def Let_def nth_append)

lemma runEffect_old:
  assumes "debounceRef v = Some (length (generations v) - 1)" and "g < length (generations v)"
  shows "generations (runEffect s v) ! g =
     (if Suc g = length (generations v)
      then (generations v ! g)
             \<lparr>cancelled := True,
              stage := (if stage (generations v ! g) = Armed then Cleared
                        else stage (generations v ! g))\<rparr>
      else generations v ! g)"
proof -
  have ne: "generations v \<noteq> []" using assms(2) by auto
  show ?thesis
    using assms ne
    by (auto simp: runEffect_def cleanup_def Let_def nth_append clearTimeout_nth nth_list_update)
qed

lemma viewInv_runEffect:
  assumes "viewInv P cutout v"
  shows "viewInv P cutout (runEffect s v)"
proof -
  let ?gs = "generations v" and ?gs' = "generations (runEffect s v)"
  from assms have ne: "?gs \<noteq> []" and ref: "debounceRef v = Some (length ?gs - 1)"
    and older: "\<And>g. Suc g < length ?gs \<Longrightarrow> cancelled (?gs ! g) \<and> stage (?gs ! g) \<noteq> Armed"
    and urls: "dom (objectUrls v) = set_option (stickerUrl v)"
    and blobs: "\<And>u blob. objectUrls v u = Some blob \<Longrightarrow>
          u < length ?gs \<and> stage (?gs ! u) = Finished
        \<and> addStickerOutline P cutout (genSettings (?gs ! u)) = Inr blob"
    by (simp_all add: viewInv_def)
  have a: "?gs' \<noteq> []" by (metis length_0_conv nat.distinct(1) runEffect_length)
  have b: "debounceRef (runEffect s v) = Some (length ?gs' - 1)" by simp
  have "last ?gs' = ?gs' ! length ?gs" using a by (simp add: last_conv_nth)
  then have c: "\<not> cancelled (last ?gs')" by simp
  have d: "\<forall>g. Suc g < length ?gs' \<longrightarrow> cancelled (?gs' ! g) \<and> stage (?gs' ! g) \<noteq> Armed"
  proof (intro allI impI)
    fix g assume "Suc g < length ?gs'"
    then have g: "g < length ?gs" by simp
    show "cancelled (?gs' ! g) \<and> stage (?gs' ! g) \<noteq> Armed"
    proof (cases "Suc g = length ?gs")
      case True
      then show ?thesis by (simp add: runEffect_old [OF ref g])
    next
      case False
      with g have "Suc g < length ?gs" by simp
      from older [OF this] False show ?thesis by (simp add: runEffect_old [OF ref g])
    qed
  qed
  have e: "dom (objectUrls (runEffect s v)) = set_option (stickerUrl (runEffect s v))"
    using urls by simp
  have f: "\<forall>u blob. objectUrls (runEffect s v) u = Some blob \<longrightarrow>
          u < length ?gs' \<and> stage (?gs' ! u) = Finished
        \<and> addStickerOutline P cutout (genSettings (?gs' ! u)) = Inr blob"
  proof (intro allI impI)
    fix u blob assume "objectUrls (runEffect s v) u = Some blob"
    then have "objectUrls v u = Some blob" by simp
    from blobs [OF this] show "u < length ?gs' \<and> stage (?gs' ! u) = Finished
        \<and> addStickerOutline P cutout (genSettings (?gs' ! u)) = Inr blob"
      by (simp add: runEffect_old [OF ref])
  qed
  from a b c d e f show ?thesis unfolding viewInv_def by (intro conjI)
qed

lemma armed_is_newest:
  assumes "viewInv P cutout v" and "g < length (generations v)"
    and "stage (generations v ! g) = Armed \<or> \<not> cancelled (generations v ! g)"
  shows "Suc g = length (generations v)"
proof (rule ccontr)
  assume "Suc g \<noteq> length (generations v)"
  with assms(2) have "Suc g < length (generations v)" by simp
  with assms(1) have "cancelled (generations v ! g) \<and> stage (generations v ! g) \<noteq> Armed"
    by (simp add: viewInv_def)
  with assms(3) show False by simp
qed

lemma viewInv_timerFires:
  assumes "viewInv P cutout v" and "g < length (generations v)"
    and "stage (generations v ! g) = Armed"
  shows "viewInv P cutout (timerFires g v)"
proof -
  let ?gs = "generations v"
  have newest: "Suc g = length ?gs" using armed_is_newest [OF assms(1,2)] assms(3) by simp
  from assms(1) have ne: "?gs \<noteq> []" and ref: "debounceRef v = Some (length ?gs - 1)"
    and nc: "\<not> cancelled (last ?gs)"
    and older: "\<And>h. Suc h < length ?gs \<Longrightarrow> cancelled (?gs ! h) \<and> stage (?gs ! h) \<noteq> Armed"
    and urls: "dom (objectUrls v) = set_option (stickerUrl v)"
    and blobs: "\<And>u blob. objectUrls v u = Some blob \<Longrightarrow>
          u < length ?gs \<and> stage (?gs ! u) = Finished
        \<and> addStickerOutline P cutout (genSettings (?gs ! u)) = Inr blob"
    by (simp_all add: viewInv_def)
  have idx: "length ?gs - 1 = g" using newest by simp
  have l: "last ?gs = ?gs ! g" using ne idx by (simp add: last_conv_nth)
  have "last (generations (timerFires g v)) = (?gs ! g)\<lparr>stage := InFlight\<rparr>"
    using ne idx assms(2) by (simp add: timerFires_def last_conv_nth)
  then have c: "\<not> cancelled (last (generations (timerFires g v)))"
    using nc l by simp
  have d: "\<forall>h. Suc h < length (generations (timerFires g v)) \<longrightarrow>
      cancelled (generations (timerFires g v) ! h) \<and> stage (generations (timerFires g v) ! h) \<noteq> Armed"
  proof (intro allI impI)
    fix h assume "Suc h < length (generations (timerFires g v))"
    then have h: "Suc h < length ?gs" by (simp add: timerFires_def)
    then have "h \<noteq> g" using newest by simp
    then show "cancelled (generations (timerFires g v) ! h)
        \<and> stage (generations (timerFires g v) ! h) \<noteq> Armed"
      using older [OF h] by (simp add: timerFires_def)
  qed
  have f: "\<forall>u blob. objectUrls (timerFires g v) u = Some blob \<longrightarrow>
          u < length (generations (timerFires g v))
        \<and> stage (generations (timerFires g v) ! u) = Finished
        \<and> addStickerOutline P cutout (genSettings (generations (timerFires g v) ! u)) = Inr blob"
  proof (intro allI impI)
    fix u blob assume "objectUrls (timerFires g v) u = Some blob"
    then have "objectUrls v u = Some blob" by (simp add: timerFires_def)
    from blobs [OF this] assms(3) show "u < length (generations (timerFires g v))
        \<and> stage (generations (timerFires g v) ! u) = Finished
        \<and> addStickerOutline P cutout (genSettings (generations (timerFires g v) ! u)) = Inr blob"
      by (cases "u = g") (auto simp: timerFires_def)
  qed
  have a: "generations (timerFires g v) \<noteq> []" using ne by (simp add: timerFires_def)
  have b: "debounceRef (timerFires g v) = Some (length (generations (timerFires g v)) - 1)"
    using ref by (simp add: timerFires_def)
  have e: "dom (objectUrls (timerFires g v)) = set_option (stickerUrl (timerFires g v))"
    using urls by (simp add: timerFires_def)
  from a b c d e f show ?thesis unfolding viewInv_def by (intro conjI)
qed

lemma settles_generations:
  "generations (settles P cutout g v) = (generations v)[g := (generations v ! g)\<lparr>stage := Finished\<rparr>]"
  "debounceRef (settles P cutout g v) = debounceRef v"
  by (simp_all add: settles_def Let_def setStickerUrl_def revokeObjectURL_def
      split: sum.splits option.splits)

lemma settles_urls:
  "objectUrls (settles P cutout g v) =
     (case addStickerOutline P cutout (genSettings (generations v ! g)) of
        Inl err \<Rightarrow> objectUrls v
      | Inr blob \<Rightarrow>
          if cancelled (generations v ! g) then (objectUrls v)(g := None)
          else (case stickerUrl v of
                  None \<Rightarrow> (objectUrls v)(g \<mapsto> blob)
                | Some prev \<Rightarrow> ((objectUrls v)(g \<mapsto> blob))(prev := None)))"
  "stickerUrl (settles P cutout g v) =
     (case addStickerOutline P cutout (genSettings (generations v ! g)) of
        Inl err \<Rightarrow> stickerUrl v
      | Inr blob \<Rightarrow> if cancelled (generations v ! g) then stickerUrl v else Some g)"
  by (simp_all add: settles_def Let_def setStickerUrl_def revokeObjectURL_def
      split: sum.splits option.splits)

lemma viewInv_settles:
  assumes "viewInv P cutout v" and "g < length (generations v)"
    and "stage (generations v ! g) = InFlight"
  shows "viewInv P cutout (settles P cutout g v)"
proof -
  let ?gs = "generations v" and ?w = "settles P cutout g v"
  from assms(1) have ne: "?gs \<noteq> []" and ref: "debounceRef v = Some (length ?gs - 1)"
    and nc: "\<not> cancelled (last ?gs)"
    and older: "\<And>h. Suc h < length ?gs \<Longrightarrow> cancelled (?gs ! h) \<and> stage (?gs ! h) \<noteq> Armed"
    and urls: "dom (objectUrls v) = set_option (stickerUrl v)"
    and blobs: "\<And>u blob. objectUrls v u = Some blob \<Longrightarrow>
          u < length ?gs \<and> stage (?gs ! u) = Finished
        \<and> addStickerOutline P cutout (genSettings (?gs ! u)) = Inr blob"
    by (simp_all add: viewInv_def)
  have fresh: "objectUrls v g = None"
  proof (cases "objectUrls v g")
    case (Some blob)
    from blobs [OF this] assms(3) show ?thesis by simp
  qed simp
  then have notshown: "stickerUrl v \<noteq> Some g" using urls by (metis domIff option.set_intros)
  have a: "generations ?w \<noteq> []" using ne by (simp add: settles_generations)
  have b: "debounceRef ?w = Some (length (generations ?w) - 1)"
    using ref by (simp add: settles_generations)
  have c: "\<not> cancelled (last (generations ?w))"
    using nc ne assms(2) by (simp add: settles_generations last_conv_nth nth_list_update)
  have d: "\<forall>h. Suc h < length (generations ?w) \<longrightarrow>
      cancelled (generations ?w ! h) \<and> stage (generations ?w ! h) \<noteq> Armed"
  proof (intro allI impI)
    fix h assume "Suc h < length (generations ?w)"
    then have h: "Suc h < length ?gs" by (simp add: settles_generations)
    then have hl: "h < length ?gs" by simp
    show "cancelled (generations ?w ! h) \<and> stage (generations ?w ! h) \<noteq> Armed"
      using older [OF h] hl by (cases "h = g") (simp_all add: settles_generations)
  qed
  have e: "dom (objectUrls ?w) = set_option (stickerUrl ?w)"
  proof (cases "addStickerOutline P cutout (genSettings (?gs ! g))")
    case (Inl err)
    then show ?thesis using urls by (simp add: settles_urls)
  next
    case (Inr blob)
    show ?thesis
    proof (cases "cancelled (?gs ! g)")
      case True
      then show ?thesis using Inr urls fresh by (simp add: settles_urls fun_upd_idem)
    next
      case False
      show ?thesis
      proof (cases "stickerUrl v")
        case None
        with urls have "objectUrls v = Map.empty" by simp
        then show ?thesis using Inr False None by (simp add: settles_urls)
      next
        case (Some prev)
        with urls have dm: "dom (objectUrls v) = {prev}" by simp
        have "prev \<noteq> g" using notshown Some by simp
        then show ?thesis using Inr False Some dm by (auto simp: settles_urls)
      qed
    qed
  qed
  have f: "\<forall>u blob. objectUrls ?w u = Some blob \<longrightarrow>
          u < length (generations ?w) \<and> stage (generations ?w ! u) = Finished
        \<and> addStickerOutline P cutout (genSettings (generations ?w ! u)) = Inr blob"
  proof (intro allI impI)
    fix u blob assume st: "objectUrls ?w u = Some blob"
    show "u < length (generations ?w) \<and> stage (generations ?w ! u) = Finished
        \<and> addStickerOutline P cutout (genSettings (generations ?w ! u)) = Inr blob"
    proof (cases "u = g")
      case True
      with st fresh have "addStickerOutline P cutout (genSettings (?gs ! g)) = Inr blob"
        by (auto simp: settles_urls split: sum.splits if_splits option.splits)
      then show ?thesis using True assms(2) by (simp add: settles_generations)
    next
      case False
      with st have "objectUrls v u = Some blob"
        by (auto simp: settles_urls split: sum.splits if_splits option.splits)
      from blobs [OF this] False show ?thesis by (simp add: settles_generations)
    qed
  qed
  from a b c d e f show ?thesis unfolding viewInv_def by (intro conjI)
qed

lemma viewInv_step:
  assumes "viewInv P cutout v"
  shows "viewInv P cutout (step P cutout v ev)"
  using assms
  by (cases ev) (simp_all add: step_def viewInv_runEffect viewInv_timerFires viewInv_settles)

lemma viewInv_exec:
  assumes "viewInv P cutout v"
  shows "viewInv P cutout (exec P cutout v evs)"
  using assms by (induction evs arbitrary: v) (simp_all add: viewInv_step)

lemma viewInv_ref:
  "viewInv P cutout v \<Longrightarrow> debounceRef v = Some (length (generations v) - 1)"
  by (simp add: viewInv_def)

lemma step_length: "length (generations v) \<le> length (generations (step P cutout v ev))"
  by (cases ev) (simp_all add: step_def timerFires_def settles_generations)

lemma step_cancelled:
  assumes "viewInv P cutout v" and "g < length (generations v)" and "cancelled (generations v ! g)"
  shows "cancelled (generations (step P cutout v ev) ! g)"
proof (cases ev)
  case (SettingsChange s)
  then show ?thesis
    using assms by (simp add: step_def runEffect_old [OF viewInv_ref [OF assms(1)] assms(2)])
next
  case (TimerFires h)
  then show ?thesis using assms by (cases "h = g") (simp_all add: step_def timerFires_def)
next
  case (Settles h)
  then show ?thesis using assms by (cases "h = g") (simp_all add: step_def settles_generations)
qed

lemma step_discarded:
  assumes "viewInv P cutout v" and "a < length (generations v)"
    and "cancelled (generations v ! a)" and "objectUrls v a = None"
  shows "objectUrls (step P cutout v ev) a = None \<and> stickerUrl (step P cutout v ev) \<noteq> Some a"
proof -
  have inv': "viewInv P cutout (step P cutout v ev)" using assms(1) by (rule viewInv_step)
  have urls: "objectUrls (step P cutout v ev) a = None"
  proof (cases ev)
    case (SettingsChange s)
    then show ?thesis using assms(4) by (simp add: step_def)
  next
    case (TimerFires h)
    then show ?thesis using assms(4) by (simp add: step_def timerFires_def)
  next
    case (Settles h)
    show ?thesis
    proof (cases "h = a")
      case True
      then show ?thesis using Settles assms(3,4)
        by (simp add: step_def settles_urls split: sum.splits)
    next
      case False
      then show ?thesis using Settles assms(4)
        by (simp add: step_def settles_urls split: sum.splits option.splits)
    qed
  qed
  moreover have "stickerUrl (step P cutout v ev) \<noteq> Some a"
  proof
    assume "stickerUrl (step P cutout v ev) = Some a"
    then have "a \<in> dom (objectUrls (step P cutout v ev))"
      using inv' by (simp add: viewInv_def)
    with urls show False by auto
  qed
  ultimately show ?thesis by simp
qed

lemma exec_discarded:
  assumes "viewInv P cutout v" and "a < length (generations v)"
    and "cancelled (generations v ! a)" and "objectUrls v a = None"
  shows "a < length (generations (exec P cutout v evs))
       \<and> cancelled (generations (exec P cutout v evs) ! a)
       \<and> objectUrls (exec P cutout v evs) a = None"
  using assms
proof (induction evs arbitrary: v)
  case Nil
  then show ?case by simp
next
  case (Cons ev evs)
  have 1: "viewInv P cutout (step P cutout v ev)" using Cons.prems(1) by (rule viewInv_step)
  have 2: "a < length (generations (step P cutout v ev))"
    using Cons.prems(2) step_length [of v P cutout ev] by simp
  have 3: "cancelled (generations (step P cutout v ev) ! a)"
    using Cons.prems(1,2,3) by (rule step_cancelled)
  have 4: "objectUrls (step P cutout v ev) a = None"
    using step_discarded [OF Cons.prems] by simp
  from Cons.IH [OF 1 2 3 4] show ?case by simp
qed

lemma step_superseded:
  assumes "viewInv P cutout v" and "b \<le> length (generations v)"
    and "\<forall>g < b. cancelled (generations v ! g)"
    and "stickerUrl v = url0 \<or> (\<exists>u \<ge> b. stickerUrl v = Some u)"
  shows "(\<forall>g < b. cancelled (generations (step P cutout v ev) ! g))
       \<and> (stickerUrl (step P cutout v ev) = url0 \<or> (\<exists>u \<ge> b. stickerUrl (step P cutout v ev) = Some u))"
proof -
  have c: "\<forall>g < b. cancelled (generations (step P cutout v ev) ! g)"
    using assms(1,2,3) step_cancelled [of P cutout v _ ev] by auto
  have "stickerUrl (step P cutout v ev) = url0 \<or> (\<exists>u \<ge> b. stickerUrl (step P cutout v ev) = Some u)"
  proof (cases ev)
    case (SettingsChange s)
    then show ?thesis using assms(4) by (simp add: step_def)
  next
    case (TimerFires h)
    then show ?thesis using assms(4) by (simp add: step_def timerFires_def)
  next
    case (Settles h)
    show ?thesis
    proof (cases "h < b")
      case True
      then have "cancelled (generations v ! h)" using assms(3) by simp
      then show ?thesis using Settles assms(4)
        by (simp add: step_def settles_urls split: sum.splits)
    next
      case False
      then show ?thesis using Settles assms(4)
        by (auto simp: step_def settles_urls split: sum.splits)
    qed
  qed
  with c show ?thesis by simp
qed

lemma exec_superseded:
  assumes "viewInv P cutout v" and "b \<le> length (generations v)"
    and "\<forall>g < b. cancelled (generations v ! g)"
    and "stickerUrl v = url0 \<or> (\<exists>u \<ge> b. stickerUrl v = Some u)"
  shows "stickerUrl (exec P cutout v evs) = url0 \<or> (\<exists>u \<ge> b. stickerUrl (exec P cutout v evs) = Some u)"
  using assms
proof (induction evs arbitrary: v)
  case Nil
  then show ?case by simp
next
  case (Cons ev evs)
  have 1: "viewInv P cutout (step P cutout v ev)" using Cons.prems(1) by (rule viewInv_step)
  have 2: "b \<le> length (generations (step P cutout v ev))"
    using Cons.prems(2) step_length [of v P cutout ev] by simp
  from step_superseded [OF Cons.prems, of ev] Cons.IH [OF 1 2] show ?case by simp
qed

lemma step_current:
  assumes inv: "viewInv P cutout v" and len: "length (generations v) = Suc b"
    and set: "genSettings (generations v ! b) = sB"
    and ev: "\<not> isSettingsChange ev"
    and app: "stage (generations v ! b) = Finished \<longrightarrow>
          (\<forall>blob. addStickerOutline P cutout sB = Inr blob \<longrightarrow>
             stickerUrl v = Some b \<and> objectUrls v b = Some blob)"
  shows "length (generations (step P cutout v ev)) = Suc b
       \<and> genSettings (generations (step P cutout v ev) ! b) = sB
       \<and> (stage (generations (step P cutout v ev) ! b) = Finished \<longrightarrow>
          (\<forall>blob. addStickerOutline P cutout sB = Inr blob \<longrightarrow>
             stickerUrl (step P cutout v ev) = Some b \<and> objectUrls (step P cutout v ev) b = Some blob))"
proof (cases ev)
  case (SettingsChange s)
  with ev show ?thesis by simp
next
  case (TimerFires h)
  show ?thesis
  proof (cases "h < length (generations v) \<and> stage (generations v ! h) = Armed")
    case True
    then have "Suc h = length (generations v)" using armed_is_newest [OF inv, of h] by simp
    then have "h = b" using len by simp
    then show ?thesis using TimerFires True len set by (simp add: step_def timerFires_def)
  next
    case False
    then show ?thesis using TimerFires len set app by (auto simp: step_def)
  qed
next
  case (Settles h)
  show ?thesis
  proof (cases "h < length (generations v) \<and> stage (generations v ! h) = InFlight")
    case False
    then show ?thesis using Settles len set app by (auto simp: step_def)
  next
    case True
    then have st: "step P cutout v ev = settles P cutout h v" using Settles by (simp add: step_def)
    have bl: "b < length (generations v)" using len by simp
    show ?thesis
    proof (cases "h = b")
      case True
      have "last (generations v) = generations v ! b" using len
        by (metis diff_Suc_1 last_conv_nth length_0_conv nat.distinct(1))
      then have nc: "\<not> cancelled (generations v ! b)" using inv by (simp add: viewInv_def)
      have fresh: "objectUrls v b = None"
      proof (cases "objectUrls v b")
        case (Some blob)
        then have "stage (generations v ! b) = Finished" using inv by (simp add: viewInv_def)
        with \<open>h < length (generations v) \<and> stage (generations v ! h) = InFlight\<close> True
        show ?thesis by simp
      qed simp
      have "dom (objectUrls v) = set_option (stickerUrl v)" using inv by (simp add: viewInv_def)
      with fresh have prev: "stickerUrl v \<noteq> Some b" by (metis domIff option.set_intros)
      show ?thesis unfolding st using True nc prev len set bl
        by (auto simp: settles_generations settles_urls split: sum.splits option.splits)
    next
      case False
      with True len have "Suc h < length (generations v)" by simp
      then have "cancelled (generations v ! h)" using inv by (simp add: viewInv_def)
      then show ?thesis unfolding st using False len set app bl
        by (auto simp: settles_generations settles_urls split: sum.splits)
    qed
  qed
qed

lemma exec_current:
  assumes "viewInv P cutout v" and "length (generations v) = Suc b"
    and "genSettings (generations v ! b) = sB"
    and "\<forall>ev \<in> set evs. \<not> isSettingsChange ev"
    and "stage (generations v ! b) = Finished \<longrightarrow>
          (\<forall>blob. addStickerOutline P cutout sB = Inr blob \<longrightarrow>
             stickerUrl v = Some b \<and> objectUrls v b = Some blob)"
  shows "stage (generations (exec P cutout v evs) ! b) = Finished \<longrightarrow>
          (\<forall>blob. addStickerOutline P cutout sB = Inr blob \<longrightarrow>
             stickerUrl (exec P cutout v evs) = Some b
           \<and> objectUrls (exec P cutout v evs) b = Some blob)"
  using assms
proof (induction evs arbitrary: v)
  case Nil
  then show ?case by simp
next
  case (Cons ev evs)
  have e: "\<not> isSettingsChange ev" and es: "\<forall>ev \<in> set evs. \<not> isSettingsChange ev"
    using Cons.prems(4) by simp_all
  have 1: "viewInv P cutout (step P cutout v ev)" using Cons.prems(1) by (rule viewInv_step)
  note s = step_current [OF Cons.prems(1,2,3) e Cons.prems(5)]
  from s have 2: "length (generations (step P cutout v ev)) = Suc b"
    and 3: "genSettings (generations (step P cutout v ev) ! b) = sB"
    and 5: "stage (generations (step P cutout v ev) ! b) = Finished \<longrightarrow>
          (\<forall>blob. addStickerOutline P cutout sB = Inr blob \<longrightarrow>
             stickerUrl (step P cutout v ev) = Some b \<and> objectUrls (step P cutout v ev) b = Some blob)"
    by blast+
  from Cons.IH [OF 1 2 3 es 5] show ?case by simp
qed

lemma viewA_generations:
  "generations viewA = [\<lparr>genSettings = DEFAULT_SETTINGS, cancelled = False, stage = InFlight\<rparr>]"
  by (simp add: viewA_def mount_def step_def runEffect_def cleanup_def clearTimeout_def
      timerFires_def Let_def)

lemma viewB_generations:
  "generations viewB =
     [\<lparr>genSettings = DEFAULT_SETTINGS, cancelled = True, stage = Finished\<rparr>,
      \<lparr>genSettings = wobblySettings, cancelled = False, stage = Finished\<rparr>]"
  by (simp add: viewB_def viewA_def mount_def step_def runEffect_def cleanup_def clearTimeout_def
      timerFires_def settles_generations Let_def)

section \<open>The claims\<close>

subsection \<open>C1: canvas size and centring\<close>

text \<open>
  Claim C1, as amended. The canvas dimensions are integers: \<open>canvas.width\<close> is the
  integer part of the number assigned to it, and that number is the sum
  \<open>(sw + pad * 2) + shadowPad\<close> as the code computes it, in doubles, every operation
  rounded (for settings of moderate size and requested dimensions below \<open>2^31\<close>);
  likewise the height. Here \<open>pad = max ((outlineWidth + wobbleExtra) + 4) 4\<close>,
  \<open>wobbleExtra = 0\<close> for Solid and \<open>(outlineWidth * masterAmp) * ((amp1 + amp2) + amp3)\<close>
  otherwise, and \<open>shadowPad = 0\<close> without a shadow and \<open>30\<close> with one; no product or
  sum of the wobble term leaves the range of the doubles. For the Solid style with a
  whole-number outline width nothing is rounded, and the width is exactly
  \<open>sw + 2 * (outlineWidth + 4) + shadowPad\<close>. The cutout is drawn centred: its top-left
  corner is at \<open>((W - sw) / 2, (H - sh) / 2)\<close> of the \<open>W\<close> by \<open>H\<close> canvas.
\<close>

theorem canvas_size_floor_centered:
  assumes "addStickerOutline P (Some img) s = Inr c"
    and "requestedWidth img s < 2147483648"
    and "requestedHeight img s < 2147483648"
    and "moderateSettings s"
  shows "cvWidth c = \<lfloor>fl (fl (real (imgWidth img) + fl (outlinePadD s * 2)) + shadowPad s)\<rfloor>
       \<and> cvHeight c = \<lfloor>fl (fl (real (imgHeight img) + fl (outlinePadD s * 2)) + shadowPad s)\<rfloor>
       \<and> outlinePadD s = max (fl (fl (outlineWidth s + wobbleExtraD s) + 4)) 4
       \<and> wobbleExtraD s =
           (if outlineStyle s = Solid then 0
            else fl (fl (outlineWidth s * masterAmp s) *
                     fl (fl (amp (wave1 s) + amp (wave2 s)) + amp (wave3 s))))
       \<and> shadowPad s = (if shadowStyle s = ShadowNone then 0 else 30)
       \<and> \<bar>fl (outlineWidth s * masterAmp s)\<bar> < 2 ^ 1024
       \<and> \<bar>fl (fl (amp (wave1 s) + amp (wave2 s)) + amp (wave3 s))\<bar> < 2 ^ 1024
       \<and> \<bar>wobbleExtraD s\<bar> < 2 ^ 1024
       \<and> (\<forall>n. outlineStyle s = Solid \<and> outlineWidth s = real n \<longrightarrow>
            cvWidth c =
              int (imgWidth img) + 2 * (int n + 4) + (if shadowStyle s = ShadowNone then 0 else 30)
          \<and> cvHeight c =
              int (imgHeight img) + 2 * (int n + 4) + (if shadowStyle s = ShadowNone then 0 else 30))
       \<and> c = (drawImage P img
                 ((real_of_int (cvWidth c) - real (imgWidth img)) / 2)
                 ((real_of_int (cvHeight c) - real (imgHeight img)) / 2)
                 (beforeCutout P img s))\<lparr>shadowColor := transparent\<rparr>"
proof -
  have f1: "\<bar>fl (outlineWidth s * masterAmp s)\<bar> < 2 ^ 1024"
    using moderate_no_overflow(1) [OF assms(4)] by simp
  have f2: "\<bar>fl (fl (amp (wave1 s) + amp (wave2 s)) + amp (wave3 s))\<bar> < 2 ^ 1024"
    using moderate_no_overflow(3) [OF assms(4)] by simp
  have f3: "\<bar>wobbleExtraD s\<bar> < 2 ^ 1024"
    using moderate_no_overflow(4) [OF assms(4)] by simp
  have c: "c = (drawAt P img (0, 0) (beforeCutout P img s))\<lparr>shadowColor := transparent\<rparr>"
    using addStickerOutline_Inr [OF assms(1)] by (simp add: renderSticker_def)
  have W: "cvWidth c = \<lfloor>requestedWidth img s\<rfloor>"
    using c canvas_dims_in_range(1) [OF assms(2)] by simp
  have H: "cvHeight c = \<lfloor>requestedHeight img s\<rfloor>"
    using c canvas_dims_in_range(2) [OF assms(3)] by simp
  have Wb: "cvWidth (beforeCutout P img s) = cvWidth c"
    and Hb: "cvHeight (beforeCutout P img s) = cvHeight c"
    using c by simp_all
  have last: "c = (drawImage P img
                 ((real_of_int (cvWidth c) - real (imgWidth img)) / 2)
                 ((real_of_int (cvHeight c) - real (imgHeight img)) / 2)
                 (beforeCutout P img s))\<lparr>shadowColor := transparent\<rparr>"
    using c unfolding centred_draw Wb Hb .
  have W': "cvWidth c = \<lfloor>fl (fl (real (imgWidth img) + fl (outlinePadD s * 2)) + shadowPad s)\<rfloor>"
    using W by (simp only: requestedWidth_def)
  have H': "cvHeight c = \<lfloor>fl (fl (real (imgHeight img) + fl (outlinePadD s * 2)) + shadowPad s)\<rfloor>"
    using H by (simp only: requestedHeight_def)
  have pad: "outlinePadD s = max (fl (fl (outlineWidth s + wobbleExtraD s) + 4)) 4"
    by (simp only: outlinePadD_def)
  have wob: "wobbleExtraD s =
           (if outlineStyle s = Solid then 0
            else fl (fl (outlineWidth s * masterAmp s) *
                     fl (fl (amp (wave1 s) + amp (wave2 s)) + amp (wave3 s))))"
    by (simp add: wobbleExtraD_def)
  have sh: "shadowPad s = (if shadowStyle s = ShadowNone then 0 else 30)"
    by (simp add: shadowPad_def)
  have exact: "\<forall>n. outlineStyle s = Solid \<and> outlineWidth s = real n \<longrightarrow>
            cvWidth c =
              int (imgWidth img) + 2 * (int n + 4) + (if shadowStyle s = ShadowNone then 0 else 30)
          \<and> cvHeight c =
              int (imgHeight img) + 2 * (int n + 4) + (if shadowStyle s = ShadowNone then 0 else 30)"
  proof (intro allI impI)
    fix n :: nat
    assume h: "outlineStyle s = Solid \<and> outlineWidth s = real n"
    then have so: "outlineStyle s = Solid" and wn: "outlineWidth s = real n" by simp_all
    have w: "requestedWidth img s =
        real (imgWidth img) + 2 * (real n + 4) + (if shadowStyle s = ShadowNone then 0 else 30)"
      using solid_integer_sum(2) [OF so wn, of "imgWidth img"] assms(2)
      unfolding requestedWidth_def sh by simp
    have h': "requestedHeight img s =
        real (imgHeight img) + 2 * (real n + 4) + (if shadowStyle s = ShadowNone then 0 else 30)"
      using solid_integer_sum(2) [OF so wn, of "imgHeight img"] assms(3)
      unfolding requestedHeight_def sh by simp
    show "cvWidth c =
              int (imgWidth img) + 2 * (int n + 4) + (if shadowStyle s = ShadowNone then 0 else 30)
          \<and> cvHeight c =
              int (imgHeight img) + 2 * (int n + 4) + (if shadowStyle s = ShadowNone then 0 else 30)"
      unfolding W H w h' by (simp only: floor_nat_sum)
  qed
  from W' H' pad wob sh f1 f2 f3 exact last show ?thesis by (intro conjI)
qed

theorem canvas_size_floor_centered_witness:
  "addStickerOutline refPlatform (Some (square 100)) floatSettings = Inr floatSticker
   \<and> requestedWidth (square 100) floatSettings < 2147483648
   \<and> requestedHeight (square 100) floatSettings < 2147483648
   \<and> moderateSettings floatSettings
   \<and> outlineStyle floatSettings = Solid \<and> outlineWidth floatSettings = real 8
   \<and> cvWidth floatSticker = 154 \<and> cvHeight floatSticker = 154
   \<and> floatSticker =
       (drawImage refPlatform (square 100) 27 27
          (beforeCutout refPlatform (square 100) floatSettings))\<lparr>shadowColor := transparent\<rparr>
   \<and> addStickerOutline refPlatform (Some (square 100)) roundingSettings =
       Inr (renderSticker refPlatform (square 100) roundingSettings)
   \<and> requestedWidth (square 100) roundingSettings < 2147483648
   \<and> requestedHeight (square 100) roundingSettings < 2147483648
   \<and> moderateSettings roundingSettings
   \<and> cvWidth (renderSticker refPlatform (square 100) roundingSettings) = 507"
proof -
  have g2: "requestedWidth (square 100) roundingSettings < 2147483648"
    by (simp add: rounding_requested)
  have g3: "requestedHeight (square 100) roundingSettings < 2147483648"
    by (simp add: rounding_requested)
  from canvas_size_floor_centered [OF rounding_run g2 g3 moderate_samples(2)]
  have "cvWidth (renderSticker refPlatform (square 100) roundingSettings) =
      \<lfloor>fl (fl (real (imgWidth (square 100)) + fl (outlinePadD roundingSettings * 2)) +
         shadowPad roundingSettings)\<rfloor>" by blast
  then have "cvWidth (renderSticker refPlatform (square 100) roundingSettings) =
      \<lfloor>requestedWidth (square 100) roundingSettings\<rfloor>"
    by (simp only: requestedWidth_def)
  then have g4: "cvWidth (renderSticker refPlatform (square 100) roundingSettings) = 507"
    unfolding rounding_requested by simp
  have h1: "addStickerOutline refPlatform (Some (square 100)) floatSettings = Inr floatSticker"
    by (rule float_run)
  have h2: "requestedWidth (square 100) floatSettings < 2147483648"
    by (simp add: float_requested)
  have h3: "requestedHeight (square 100) floatSettings < 2147483648"
    by (simp add: float_requested)
  have h4: "outlineStyle floatSettings = Solid \<and> outlineWidth floatSettings = real 8"
    by (simp add: floatSettings_def DEFAULT_SETTINGS_def)
  note t = canvas_size_floor_centered [OF h1 h2 h3 moderate_samples(1)]
  from t h4 have d: "cvWidth floatSticker =
      int (imgWidth (square 100)) + 2 * (int 8 + 4) +
        (if shadowStyle floatSettings = ShadowNone then 0 else 30)
    \<and> cvHeight floatSticker =
      int (imgHeight (square 100)) + 2 * (int 8 + 4) +
        (if shadowStyle floatSettings = ShadowNone then 0 else 30)" by blast
  have W: "cvWidth floatSticker = 154" and H: "cvHeight floatSticker = 154"
    using d by (simp_all add: square_def floatSettings_def)
  from t have "floatSticker =
       (drawImage refPlatform (square 100)
          ((real_of_int (cvWidth floatSticker) - real (imgWidth (square 100))) / 2)
          ((real_of_int (cvHeight floatSticker) - real (imgHeight (square 100))) / 2)
          (beforeCutout refPlatform (square 100) floatSettings))\<lparr>shadowColor := transparent\<rparr>"
    by blast
  then have c: "floatSticker =
       (drawImage refPlatform (square 100) 27 27
          (beforeCutout refPlatform (square 100) floatSettings))\<lparr>shadowColor := transparent\<rparr>"
    unfolding W H by (simp add: square_def)
  from h4 have h4a: "outlineStyle floatSettings = Solid"
    and h4b: "outlineWidth floatSettings = real 8" by simp_all
  from h1 h2 h3 moderate_samples(1) h4a h4b W H c rounding_run g2 g3 moderate_samples(2) g4
  show ?thesis by (intro conjI)
qed

text \<open>
  The claim as stated fails where the sum has a fraction: for a 100 by 100 cutout and the
  Wobbly defaults the sum is about \<open>197.6\<close>, in doubles and in exact arithmetic alike,
  and the canvas is 197 wide. Nor is the width the integer part of the exact sum: for the
  outline width 20, the master amplitude 2.5 and the amplitudes 0.8, 1.25 and 1.55 the
  exact sum is just above 508, the double sum just below, and the canvas is 507 wide.
\<close>

theorem canvas_size_counterexample:
  "addStickerOutline refPlatform (Some (square 100)) wobblySettings = Inr wobblySticker
   \<and> requestedWidth (square 100) wobblySettings = 6952431924753203 / 35184372088832
   \<and> cvWidth wobblySticker = 197
   \<and> 197 < real (imgWidth (square 100)) + 2 * outlinePad wobblySettings + shadowPad wobblySettings
   \<and> real_of_int (cvWidth wobblySticker) \<noteq>
       real (imgWidth (square 100)) + 2 * outlinePad wobblySettings + shadowPad wobblySettings
   \<and> real_of_int (cvWidth wobblySticker) \<noteq> requestedWidth (square 100) wobblySettings
   \<and> addStickerOutline refPlatform (Some (square 100)) roundingSettings =
       Inr (renderSticker refPlatform (square 100) roundingSettings)
   \<and> \<lfloor>real (imgWidth (square 100)) + 2 * outlinePad roundingSettings +
        shadowPad roundingSettings\<rfloor> = 508
   \<and> cvWidth (renderSticker refPlatform (square 100) roundingSettings) = 507"
proof -
  have fl508: "\<lfloor>real (imgWidth (square 100)) + 2 * outlinePad roundingSettings +
        shadowPad roundingSettings\<rfloor> = 508"
    unfolding rounding_exact by simp
  have sum: "real (imgWidth (square 100)) + 2 * outlinePad wobblySettings + shadowPad wobblySettings
      = 111238910796051251 / 562949953421312"
    by (simp add: square_def wobblySettings_def DEFAULT_SETTINGS_def outlinePad_def
        wobbleExtra_def shadowPad_def fl_literals)
  have gt: "197 < real (imgWidth (square 100)) + 2 * outlinePad wobblySettings + shadowPad wobblySettings"
    unfolding sum by simp
  have ne: "real_of_int (cvWidth wobblySticker) \<noteq>
      real (imgWidth (square 100)) + 2 * outlinePad wobblySettings + shadowPad wobblySettings"
    unfolding sum wobbly_dims by simp
  have ne2: "real_of_int (cvWidth wobblySticker) \<noteq> requestedWidth (square 100) wobblySettings"
    unfolding wobbly_requested wobbly_dims by simp
  from wobbly_run wobbly_requested(1) wobbly_dims(1) gt ne ne2 rounding_run fl508 rounding_dims(1)
  show ?thesis by (intro conjI)
qed

subsection \<open>C2: the radius of a wave stamp\<close>

text \<open>
  Claim C2. For a wave style with a positive outline width, every stamp of the wave
  outline, at angle \<open>a\<close> on the ring of radius \<open>rad\<close>, is drawn at the radius
  \<open>rad * max 0.05 (1 + wobble a * (rad / outlineWidth))\<close>, where \<open>wobble a\<close> is
  \<open>(sin (a * f1) * a1 + cos (a * f2) * a2 + sin (a * f3 + 1.5) * a3) * masterAmp\<close>; the ring
  scale lies in \<open>(0, 1]\<close>, and the radius is never below \<open>0.05 * rad\<close>. The stamps are
  exactly the draws of the wave branch, each at the offset \<open>(cos a * r, sin a * r)\<close>.
\<close>

theorem wave_stamp_radius:
  assumes "outlineStyle s \<noteq> Solid" and "0 < outlineWidth s" and "st \<in> set (waveStamps s)"
  shows "stRadius st =
           stRing st * max (5 / 100) (1 + wobbleAt s (stAngle st) * (stRing st / outlineWidth s))
       \<and> wobbleAt s (stAngle st) =
           (sin (stAngle st * freq (wave1 s)) * amp (wave1 s) +
            cos (stAngle st * freq (wave2 s)) * amp (wave2 s) +
            sin (stAngle st * freq (wave3 s) + 15 / 10) * amp (wave3 s)) * masterAmp s
       \<and> 0 < stRing st \<and> stRing st \<le> outlineWidth s
       \<and> 5 / 100 * stRing st \<le> stRadius st
       \<and> stampOffset st = (cos (stAngle st) * stRadius st, sin (stAngle st) * stRadius st)
       \<and> waveOutline P img s c = fillOutline P s (stampAll P img (waveStamps s) c)"
proof -
  let ?w = "outlineWidth s"
  have form: "stRadius st = stRing st * max (5 / 100) (1 + wobbleAt s (stAngle st) * (stRing st / ?w))
      \<and> 0 < stRing st \<and> stRing st \<le> ?w"
  proof (cases "st \<in> set (waveOuter s)")
    case True
    then show ?thesis using assms(2) by (auto simp: waveOuter_def)
  next
    case False
    with assms(3) obtain rad where rad: "rad \<in> set (ringsFrom ?w)" and st: "st \<in> set (waveRing s rad)"
      by (auto simp: waveStamps_def)
    from ringsFrom_bounds [OF rad] st show ?thesis
      by (auto simp: waveRing_def Let_def)
  qed
  then have pos: "0 < stRing st" by simp
  have "5 / 100 \<le> max (5 / 100) (1 + wobbleAt s (stAngle st) * (stRing st / ?w))" by simp
  then have "stRing st * (5 / 100) \<le> stRing st * max (5 / 100) (1 + wobbleAt s (stAngle st) * (stRing st / ?w))"
    using pos by (intro mult_left_mono) auto
  then have floor: "5 / 100 * stRing st \<le> stRadius st"
    using form by (simp add: mult.commute)
  show ?thesis using form floor assms(1,2)
    by (simp add: wobbleAt_def stampOffset_def waveOutline_def)
qed

theorem wave_stamp_radius_witness:
  "outlineStyle wobblySettings \<noteq> Solid
   \<and> 0 < outlineWidth wobblySettings
   \<and> hd (waveStamps wobblySettings) \<in> set (waveStamps wobblySettings)
   \<and> 0 < stRing (hd (waveStamps wobblySettings))
   \<and> 5 / 100 * stRing (hd (waveStamps wobblySettings)) \<le> stRadius (hd (waveStamps wobblySettings))"
proof -
  have h1: "outlineStyle wobblySettings \<noteq> Solid"
    by (simp add: wobblySettings_def DEFAULT_SETTINGS_def)
  have h2: "0 < outlineWidth wobblySettings"
    by (simp add: wobblySettings_def DEFAULT_SETTINGS_def)
  have "waveStamps wobblySettings \<noteq> []"
    by (simp add: waveStamps_def waveOuter_def steps_def)
  then have h3: "hd (waveStamps wobblySettings) \<in> set (waveStamps wobblySettings)"
    by (rule hd_in_set)
  from wave_stamp_radius [OF h1 h2 h3, of refPlatform "square 100" createCanvas] h1 h2 h3
  show ?thesis by blast
qed

subsection \<open>C3: the rings of the solid outline\<close>

text \<open>
  Claim C3, as amended. For the Solid style with a positive outline width the dilation
  stamps the ring \<open>r = outlineWidth\<close> first, at all 72 angles, and then the rings at the
  radii \<open>outlineWidth - 1, outlineWidth - 3, ...\<close> (from \<open>outlineWidth - 1\<close> down to just
  above 0 in steps of 2), each at all 72 angles \<open>2 * pi * i / 72\<close> and at the offsets
  \<open>(cos angle * r, sin angle * r)\<close>.
\<close>

theorem solid_stamp_rings:
  assumes "outlineStyle s = Solid" and "0 < outlineWidth s"
  shows "solidOutline P img s c = fillOutline P s (stampAll P img (solidStamps (outlineWidth s)) c)
       \<and> solidStamps (outlineWidth s) =
           concat (map solidRing
             (outlineWidth s #
              map (\<lambda>k. outlineWidth s - 1 - 2 * real k) [0..<nat \<lceil>(outlineWidth s - 1) / 2\<rceil>]))
       \<and> (\<forall>r. map stampOffset (solidRing r) =
                map (\<lambda>i. (cos (2 * pi * real i / 72) * r, sin (2 * pi * real i / 72) * r)) [0..<72])"
  using assms
  by (simp add: solidOutline_def solidStamps_def ringsFrom_closed [of "outlineWidth s - 1"]
      solidRing_def stampOffset_def angleOf_def steps_def comp_def)

theorem solid_stamp_rings_witness:
  "outlineStyle DEFAULT_SETTINGS = Solid
   \<and> 0 < outlineWidth DEFAULT_SETTINGS
   \<and> solidStamps (outlineWidth DEFAULT_SETTINGS) =
       concat (map solidRing
         (outlineWidth DEFAULT_SETTINGS #
          map (\<lambda>k. outlineWidth DEFAULT_SETTINGS - 1 - 2 * real k)
            [0..<nat \<lceil>(outlineWidth DEFAULT_SETTINGS - 1) / 2\<rceil>]))"
proof -
  have h1: "outlineStyle DEFAULT_SETTINGS = Solid" by (simp add: DEFAULT_SETTINGS_def)
  have h2: "0 < outlineWidth DEFAULT_SETTINGS" by (simp add: DEFAULT_SETTINGS_def)
  from solid_stamp_rings [OF h1 h2, of refPlatform "square 100" createCanvas] h1 h2
  show ?thesis by blast
qed

text \<open>
  The claim as stated has the inner rings step down from \<open>outlineWidth\<close>; for the default
  width 8 that would be the rings 8, 6, 4, 2. The code stamps the rings 8, 7, 5, 3, 1.
\<close>

theorem solid_rings_counterexample:
  "outlineStyle DEFAULT_SETTINGS = Solid
   \<and> outlineWidth DEFAULT_SETTINGS = 8
   \<and> stRing ` set (solidStamps (outlineWidth DEFAULT_SETTINGS)) = {8, 7, 5, 3, 1}
   \<and> outlineWidth DEFAULT_SETTINGS - 2 \<notin> stRing ` set (solidStamps (outlineWidth DEFAULT_SETTINGS))"
proof -
  have s: "outlineStyle DEFAULT_SETTINGS = Solid" and w: "outlineWidth DEFAULT_SETTINGS = 8"
    by (simp_all add: DEFAULT_SETTINGS_def)
  have r: "stRing ` set (solidStamps (outlineWidth DEFAULT_SETTINGS)) = {8, 7, 5, 3, 1}"
    unfolding w
    by (auto simp: solidStamps_def ringsFrom.simps image_Un ring_of_solidRing image_UN)
  have n: "outlineWidth DEFAULT_SETTINGS - 2 \<notin> stRing ` set (solidStamps (outlineWidth DEFAULT_SETTINGS))"
    unfolding r unfolding w by simp
  from s w r n show ?thesis by (intro conjI)
qed

subsection \<open>C4: no outline at width 0\<close>



subsection \<open>C5: the outline fill\<close>

text \<open>
  Claim C5, as amended. The fill that ends an outline branch composites the fill colour
  with \<open>source-in\<close> over every pixel of the canvas; the fill colour is the outline colour
  as the browser parses it (opaque black if the string is no colour). A pixel after the
  fill holds the premultiplied fill colour scaled by the alpha that the stamping (the
  dilation) left there, rounded to 8 bits. For an opaque fill colour the alpha is exactly
  that of the dilation and the stored channels are the colour's channels times that
  alpha; a pixel of full alpha reads back as exactly the fill colour; and a pixel of
  alpha zero is transparent after the fill, so the fill adds no coverage.
\<close>

theorem outline_fill_pixels:
  assumes "0 < outlineWidth s"
    and "0 \<le> x" and "x < cvWidth (outlineLayer P img s)"
    and "0 \<le> y" and "y < cvHeight (outlineLayer P img s)"
  shows "fillStyle (outlineLayer P img s) =
           (case cssColor P (outlineColor s) of None \<Rightarrow> black 1 | Some col \<Rightarrow> col)
       \<and> bitmap (outlineLayer P img s) (x, y) =
           blend SourceIn (premultiply (fillStyle (outlineLayer P img s)))
             (bitmap (dilated P img s) (x, y))
       \<and> alpha (bitmap (outlineLayer P img s) (x, y)) =
           mul255 (alpha (fillStyle (outlineLayer P img s))) (alpha (bitmap (dilated P img s) (x, y)))
       \<and> (alpha (fillStyle (outlineLayer P img s)) = 255 \<longrightarrow>
            alpha (bitmap (outlineLayer P img s) (x, y)) = alpha (bitmap (dilated P img s) (x, y))
          \<and> red (bitmap (outlineLayer P img s) (x, y)) =
              mul255 (red (fillStyle (outlineLayer P img s))) (alpha (bitmap (dilated P img s) (x, y)))
          \<and> green (bitmap (outlineLayer P img s) (x, y)) =
              mul255 (green (fillStyle (outlineLayer P img s))) (alpha (bitmap (dilated P img s) (x, y)))
          \<and> blue (bitmap (outlineLayer P img s) (x, y)) =
              mul255 (blue (fillStyle (outlineLayer P img s))) (alpha (bitmap (dilated P img s) (x, y))))
       \<and> (alpha (fillStyle (outlineLayer P img s)) = 255
            \<and> alpha (bitmap (dilated P img s) (x, y)) = 255 \<longrightarrow>
            straight (bitmap (outlineLayer P img s) (x, y)) = fillStyle (outlineLayer P img s))
       \<and> (alpha (bitmap (dilated P img s) (x, y)) = 0 \<longrightarrow>
            bitmap (outlineLayer P img s) (x, y) = transparent)"
proof -
  let ?col = "fillStyle (outlineLayer P img s)"
  let ?d = "bitmap (dilated P img s) (x, y)"
  let ?o = "bitmap (outlineLayer P img s) (x, y)"
  have sh: "alpha (shadowColor (dilated P img s)) = 0" by (simp add: transparent_def)
  have x: "x < cvWidth (dilated P img s)" and y: "y < cvHeight (dilated P img s)"
    using assms(3,5) by simp_all
  have col: "?col = (case cssColor P (outlineColor s) of None \<Rightarrow> black 1 | Some col \<Rightarrow> col)"
    unfolding outlineLayer_fill [OF assms(1)] fillOutline_fillStyle dilated_fillStyle ..
  have px: "?o = blend SourceIn (premultiply ?col) ?d"
    unfolding outlineLayer_fill [OF assms(1)]
    by (rule fillOutline_pixel [OF sh assms(2) x assms(4) y])
  have al: "alpha ?o = mul255 (alpha ?col) (alpha ?d)"
    by (subst px) (simp add: blend_def premultiply_def)
  have opaque: "alpha ?col = 255 \<longrightarrow>
            alpha ?o = alpha ?d
          \<and> red ?o = mul255 (red ?col) (alpha ?d)
          \<and> green ?o = mul255 (green ?col) (alpha ?d)
          \<and> blue ?o = mul255 (blue ?col) (alpha ?d)"
  proof
    assume a: "alpha ?col = 255"
    have pm: "premultiply ?col = ?col" using a by (rule premultiply_opaque)
    have "?o = blend SourceIn ?col ?d" using px unfolding pm .
    then have o: "?o = \<lparr>red = mul255 (red ?col) (alpha ?d), green = mul255 (green ?col) (alpha ?d),
        blue = mul255 (blue ?col) (alpha ?d), alpha = mul255 (alpha ?col) (alpha ?d)\<rparr>"
      by (simp add: blend_def)
    have 1: "alpha ?o = alpha ?d" by (subst o) (simp add: a)
    have 2: "red ?o = mul255 (red ?col) (alpha ?d)" by (subst o) simp
    have 3: "green ?o = mul255 (green ?col) (alpha ?d)" by (subst o) simp
    have 4: "blue ?o = mul255 (blue ?col) (alpha ?d)" by (subst o) simp
    from 1 2 3 4 show "alpha ?o = alpha ?d
          \<and> red ?o = mul255 (red ?col) (alpha ?d)
          \<and> green ?o = mul255 (green ?col) (alpha ?d)
          \<and> blue ?o = mul255 (blue ?col) (alpha ?d)" by (intro conjI)
  qed
  have full: "alpha ?col = 255 \<and> alpha ?d = 255 \<longrightarrow> straight ?o = ?col"
  proof
    assume h: "alpha ?col = 255 \<and> alpha ?d = 255"
    then have a: "alpha ?col = 255" and d: "alpha ?d = 255" by simp_all
    have pm: "premultiply ?col = ?col" using a by (rule premultiply_opaque)
    have "?o = blend SourceIn ?col ?d" using px unfolding pm .
    then have o: "?o = ?col" by (simp add: blend_def d)
    show "straight ?o = ?col" unfolding o using a by (rule straight_opaque)
  qed
  have none: "alpha ?d = 0 \<longrightarrow> ?o = transparent"
  proof
    assume d: "alpha ?d = 0"
    show "?o = transparent" by (subst px) (simp add: blend_def d transparent_def)
  qed
  from col px al opaque full none show ?thesis by (intro conjI)
qed

theorem outline_fill_pixels_witness:
  "0 < outlineWidth redSettings
   \<and> (0::int) \<le> 55 \<and> 55 < cvWidth (outlineLayer refPlatform (faintSquare 100) redSettings)
   \<and> 55 < cvHeight (outlineLayer refPlatform (faintSquare 100) redSettings)
   \<and> fillStyle (outlineLayer refPlatform (faintSquare 100) redSettings) =
       \<lparr>red = 239, green = 68, blue = 68, alpha = 255\<rparr>
   \<and> alpha (fillStyle (outlineLayer refPlatform (faintSquare 100) redSettings)) = 255
   \<and> alpha (bitmap (outlineLayer refPlatform (faintSquare 100) redSettings) (55, 55)) =
       alpha (bitmap (dilated refPlatform (faintSquare 100) redSettings) (55, 55))
   \<and> red (bitmap (outlineLayer refPlatform (faintSquare 100) redSettings) (55, 55)) =
       mul255 (red (fillStyle (outlineLayer refPlatform (faintSquare 100) redSettings)))
         (alpha (bitmap (dilated refPlatform (faintSquare 100) redSettings) (55, 55)))"
proof -
  have h1: "0 < outlineWidth redSettings" by (simp add: redSettings_def)
  have h2: "(0::int) \<le> 55" by simp
  have h3: "55 < cvWidth (outlineLayer refPlatform (faintSquare 100) redSettings)"
    by (simp add: red_requested reflectedDim_def toUnsignedLong_def)
  have h5: "55 < cvHeight (outlineLayer refPlatform (faintSquare 100) redSettings)"
    by (simp add: red_requested reflectedDim_def toUnsignedLong_def)
  note t = outline_fill_pixels [OF h1 h2 h3 h2 h5]
  from t have "fillStyle (outlineLayer refPlatform (faintSquare 100) redSettings) =
      (case cssColor refPlatform (outlineColor redSettings) of None \<Rightarrow> black 1 | Some col \<Rightarrow> col)"
    by blast
  then have col: "fillStyle (outlineLayer refPlatform (faintSquare 100) redSettings) =
       \<lparr>red = 239, green = 68, blue = 68, alpha = 255\<rparr>"
    unfolding red_colour by simp
  then have a: "alpha (fillStyle (outlineLayer refPlatform (faintSquare 100) redSettings)) = 255"
    by simp
  from t a have al: "alpha (bitmap (outlineLayer refPlatform (faintSquare 100) redSettings) (55, 55)) =
       alpha (bitmap (dilated refPlatform (faintSquare 100) redSettings) (55, 55))"
    and rd: "red (bitmap (outlineLayer refPlatform (faintSquare 100) redSettings) (55, 55)) =
       mul255 (red (fillStyle (outlineLayer refPlatform (faintSquare 100) redSettings)))
         (alpha (bitmap (dilated refPlatform (faintSquare 100) redSettings) (55, 55)))"
    by blast+
  from h1 h2 h3 h5 col a al rd show ?thesis by (intro conjI)
qed

text \<open>
  The claim as stated asks for colour channels exactly equal to the outline colour
  wherever the dilation has coverage. On a partly covered pixel the 8-bit premultiplied
  samples cannot hold that. A cutout of alpha 1 of 255, stamped 72 times by the Solid
  outline of width 1, leaves the pixel at \<open>(55, 55)\<close> with alpha 72; filled with
  \<open>#ef4444\<close>, which is \<open>(239, 68, 68)\<close>, the pixel holds \<open>(67, 19, 19, 72)\<close>
  and reads back as \<open>(237, 67, 67)\<close>.
\<close>

theorem outline_fill_counterexample:
  "0 < outlineWidth redSettings
   \<and> cssColor refPlatform (outlineColor redSettings) =
       Some \<lparr>red = 239, green = 68, blue = 68, alpha = 255\<rparr>
   \<and> 55 < cvWidth (outlineLayer refPlatform (faintSquare 100) redSettings)
   \<and> 55 < cvHeight (outlineLayer refPlatform (faintSquare 100) redSettings)
   \<and> bitmap (dilated refPlatform (faintSquare 100) redSettings) (55, 55) =
       \<lparr>red = 72, green = 72, blue = 72, alpha = 72\<rparr>
   \<and> bitmap (outlineLayer refPlatform (faintSquare 100) redSettings) (55, 55) =
       \<lparr>red = 67, green = 19, blue = 19, alpha = 72\<rparr>
   \<and> straight (bitmap (outlineLayer refPlatform (faintSquare 100) redSettings) (55, 55)) =
       \<lparr>red = 237, green = 67, blue = 67, alpha = 72\<rparr>
   \<and> red (straight (bitmap (outlineLayer refPlatform (faintSquare 100) redSettings) (55, 55))) \<noteq> 239
   \<and> green (straight (bitmap (outlineLayer refPlatform (faintSquare 100) redSettings) (55, 55))) \<noteq> 68"
proof -
  have h1: "0 < outlineWidth redSettings" by (simp add: redSettings_def)
  have h3: "55 < cvWidth (outlineLayer refPlatform (faintSquare 100) redSettings)"
    by (simp add: red_requested reflectedDim_def toUnsignedLong_def)
  have h5: "55 < cvHeight (outlineLayer refPlatform (faintSquare 100) redSettings)"
    by (simp add: red_requested reflectedDim_def toUnsignedLong_def)
  have st: "straight (bitmap (outlineLayer refPlatform (faintSquare 100) redSettings) (55, 55)) =
       \<lparr>red = 237, green = 67, blue = 67, alpha = 72\<rparr>"
    unfolding red_outline by (simp add: straight_def unmul_def)
  have r: "red (straight (bitmap (outlineLayer refPlatform (faintSquare 100) redSettings) (55, 55))) \<noteq> 239"
    unfolding st by simp
  have g: "green (straight (bitmap (outlineLayer refPlatform (faintSquare 100) redSettings) (55, 55))) \<noteq> 68"
    unfolding st by simp
  from h1 red_colour h3 h5 red_dilated red_outline st r g show ?thesis by (intro conjI)
qed

subsection \<open>C6: the Float shadow\<close>

text \<open>
  Claim C6, as amended. With \<open>shadowStyle = Float\<close>, settings of moderate size and
  requested dimensions below \<open>2^31\<close>, the number assigned to each canvas dimension
  is the double sum
  \<open>(sw + pad * 2) + 30\<close>. The canvas is 30 pixels larger in each dimension than it is
  without a shadow (31 where the rounded sum reaches the next integer); the cutout is
  centred, so that is 15 pixels (or 15.5) more on each side, not 30. For the Solid style
  with a whole-number outline width the dimension is exactly \<open>sw + 2 * pad + 30\<close> and
  the margin on each side exactly \<open>pad + 15\<close>. The cutout is drawn with the shadow
  blur 28, the offset \<open>(0, 12)\<close> and the colour black at alpha 0.18.
\<close>

theorem float_shadow_margin:
  assumes "shadowStyle s = Float"
    and "addStickerOutline P (Some img) s = Inr c"
    and "requestedWidth img s < 2147483648"
    and "requestedHeight img s < 2147483648"
    and "moderateSettings s"
  shows "cvWidth c = \<lfloor>fl (fl (real (imgWidth img) + fl (outlinePadD s * 2)) + 30)\<rfloor>
       \<and> cvHeight c = \<lfloor>fl (fl (real (imgHeight img) + fl (outlinePadD s * 2)) + 30)\<rfloor>
       \<and> cvWidth c - cvWidth (sizedCanvas img (s\<lparr>shadowStyle := ShadowNone\<rparr>)) \<in> {30, 31}
       \<and> cvHeight c - cvHeight (sizedCanvas img (s\<lparr>shadowStyle := ShadowNone\<rparr>)) \<in> {30, 31}
       \<and> sideMarginX img c - sideMarginX img (sizedCanvas img (s\<lparr>shadowStyle := ShadowNone\<rparr>))
            \<in> {15, 31 / 2}
       \<and> sideMarginY img c - sideMarginY img (sizedCanvas img (s\<lparr>shadowStyle := ShadowNone\<rparr>))
            \<in> {15, 31 / 2}
       \<and> (\<forall>n. outlineStyle s = Solid \<and> outlineWidth s = real n \<longrightarrow>
              outlinePadD s = real n + 4
            \<and> cvWidth c = int (imgWidth img) + 2 * (int n + 4) + 30
            \<and> cvHeight c = int (imgHeight img) + 2 * (int n + 4) + 30
            \<and> sideMarginX img c = outlinePadD s + 15
            \<and> sideMarginY img c = outlinePadD s + 15)
       \<and> c = (drawAt P img (0, 0) (beforeCutout P img s))\<lparr>shadowColor := transparent\<rparr>
       \<and> shadowColor (beforeCutout P img s) = black (18 / 100)
       \<and> shadowBlur (beforeCutout P img s) = 28
       \<and> shadowOffsetX (beforeCutout P img s) = 0
       \<and> shadowOffsetY (beforeCutout P img s) = 12"
proof -
  let ?s0 = "s\<lparr>shadowStyle := ShadowNone\<rparr>"
  have c: "c = renderSticker P img s" using assms(2) by (rule addStickerOutline_Inr)
  have sp: "shadowPad s = 30" using assms(1) by (simp add: shadowPad_def)
  have W: "cvWidth c = \<lfloor>fl (fl (real (imgWidth img) + fl (outlinePadD s * 2)) + 30)\<rfloor>"
    using canvas_dims_in_range(1) [OF assms(3)] by (simp add: c requestedWidth_def sp)
  have H: "cvHeight c = \<lfloor>fl (fl (real (imgHeight img) + fl (outlinePadD s * 2)) + 30)\<rfloor>"
    using canvas_dims_in_range(2) [OF assms(4)] by (simp add: c requestedHeight_def sp)
  have gw: "cvWidth c - cvWidth (sizedCanvas img ?s0) \<in> {30, 31}"
    using shadowed_dim_gain(1) [OF sp assms(3)] by (simp add: c)
  have gh: "cvHeight c - cvHeight (sizedCanvas img ?s0) \<in> {30, 31}"
    using shadowed_dim_gain(2) [OF sp assms(4)] by (simp add: c)
  have mx: "sideMarginX img c - sideMarginX img (sizedCanvas img ?s0) \<in> {15, 31 / 2}"
    unfolding sideMarginX_def drawPos_def cx_def fst_conv using gw by (rule half_gain)
  have my: "sideMarginY img c - sideMarginY img (sizedCanvas img ?s0) \<in> {15, 31 / 2}"
    unfolding sideMarginY_def drawPos_def cy_def fst_conv snd_conv using gh by (rule half_gain)
  have exact: "\<forall>n. outlineStyle s = Solid \<and> outlineWidth s = real n \<longrightarrow>
              outlinePadD s = real n + 4
            \<and> cvWidth c = int (imgWidth img) + 2 * (int n + 4) + 30
            \<and> cvHeight c = int (imgHeight img) + 2 * (int n + 4) + 30
            \<and> sideMarginX img c = outlinePadD s + 15
            \<and> sideMarginY img c = outlinePadD s + 15"
  proof (intro allI impI)
    fix n :: nat
    assume h: "outlineStyle s = Solid \<and> outlineWidth s = real n"
    then have so: "outlineStyle s = Solid" and wn: "outlineWidth s = real n" by simp_all
    have lw: "fl (fl (real (imgWidth img) + fl (outlinePadD s * 2)) + shadowPad s) < 2147483648"
      using assms(3) by (simp only: requestedWidth_def)
    have lh: "fl (fl (real (imgHeight img) + fl (outlinePadD s * 2)) + shadowPad s) < 2147483648"
      using assms(4) by (simp only: requestedHeight_def)
    have p: "outlinePadD s = real n + 4" using so wn lw by (rule solid_integer_sum(1))
    have w: "requestedWidth img s = real (imgWidth img) + 2 * (real n + 4) + (if False then 0 else 30)"
      using solid_integer_sum(2) [OF so wn lw] by (simp add: requestedWidth_def sp)
    have h': "requestedHeight img s = real (imgHeight img) + 2 * (real n + 4) + (if False then 0 else 30)"
      using solid_integer_sum(2) [OF so wn lh] by (simp add: requestedHeight_def sp)
    have "cvWidth c = \<lfloor>requestedWidth img s\<rfloor>"
      using canvas_dims_in_range(1) [OF assms(3)] by (simp add: c)
    then have W': "cvWidth c = int (imgWidth img) + 2 * (int n + 4) + 30"
      unfolding w floor_nat_sum by simp
    have "cvHeight c = \<lfloor>requestedHeight img s\<rfloor>"
      using canvas_dims_in_range(2) [OF assms(4)] by (simp add: c)
    then have H': "cvHeight c = int (imgHeight img) + 2 * (int n + 4) + 30"
      unfolding h' floor_nat_sum by simp
    have mx': "sideMarginX img c = outlinePadD s + 15"
      unfolding sideMarginX_def drawPos_def cx_def W' p by (simp add: field_simps)
    have my': "sideMarginY img c = outlinePadD s + 15"
      unfolding sideMarginY_def drawPos_def cy_def H' p by (simp add: field_simps)
    from p W' H' mx' my'
    show "outlinePadD s = real n + 4
            \<and> cvWidth c = int (imgWidth img) + 2 * (int n + 4) + 30
            \<and> cvHeight c = int (imgHeight img) + 2 * (int n + 4) + 30
            \<and> sideMarginX img c = outlinePadD s + 15
            \<and> sideMarginY img c = outlinePadD s + 15" by (intro conjI)
  qed
  have d: "c = (drawAt P img (0, 0) (beforeCutout P img s))\<lparr>shadowColor := transparent\<rparr>"
    using c by (simp add: renderSticker_def)
  have s1: "shadowColor (beforeCutout P img s) = black (18 / 100)"
    and s2: "shadowBlur (beforeCutout P img s) = 28"
    and s3: "shadowOffsetX (beforeCutout P img s) = 0"
    and s4: "shadowOffsetY (beforeCutout P img s) = 12"
    using assms(1) by (simp_all add: beforeCutout_def shadowPreset_Float)
  from W H gw gh mx my exact d s1 s2 s3 s4 show ?thesis by (intro conjI)
qed

theorem float_shadow_margin_witness:
  "shadowStyle floatSettings = Float
   \<and> addStickerOutline refPlatform (Some (square 100)) floatSettings = Inr floatSticker
   \<and> requestedWidth (square 100) floatSettings < 2147483648
   \<and> requestedHeight (square 100) floatSettings < 2147483648
   \<and> moderateSettings floatSettings
   \<and> outlineStyle floatSettings = Solid
   \<and> outlineWidth floatSettings = real 8
   \<and> outlinePadD floatSettings = 12
   \<and> cvWidth floatSticker = 154
   \<and> sideMarginX (square 100) floatSticker = 12 + 15
   \<and> cvWidth floatSticker -
       cvWidth (sizedCanvas (square 100) (floatSettings\<lparr>shadowStyle := ShadowNone\<rparr>)) \<in> {30, 31}
   \<and> shadowColor (beforeCutout refPlatform (square 100) floatSettings) = black (18 / 100)
   \<and> shadowBlur (beforeCutout refPlatform (square 100) floatSettings) = 28
   \<and> shadowOffsetY (beforeCutout refPlatform (square 100) floatSettings) = 12"
proof -
  have h1: "shadowStyle floatSettings = Float" by (simp add: floatSettings_def)
  have h3: "requestedWidth (square 100) floatSettings < 2147483648" by (simp add: float_requested)
  have h4: "requestedHeight (square 100) floatSettings < 2147483648" by (simp add: float_requested)
  have h5: "outlineStyle floatSettings = Solid" and h6: "outlineWidth floatSettings = real 8"
    by (simp_all add: floatSettings_def DEFAULT_SETTINGS_def)
  note t = float_shadow_margin [OF h1 float_run h3 h4 moderate_samples(1)]
  from t h5 h6 have e: "outlinePadD floatSettings = real 8 + 4
      \<and> cvWidth floatSticker = int (imgWidth (square 100)) + 2 * (int 8 + 4) + 30
      \<and> sideMarginX (square 100) floatSticker = outlinePadD floatSettings + 15" by blast
  from e have p: "outlinePadD floatSettings = 12" by simp
  from e have W: "cvWidth floatSticker = 154" by (simp add: square_def)
  from e p have m: "sideMarginX (square 100) floatSticker = 12 + 15" by simp
  from t have g: "cvWidth floatSticker -
       cvWidth (sizedCanvas (square 100) (floatSettings\<lparr>shadowStyle := ShadowNone\<rparr>)) \<in> {30, 31}"
    by blast
  from t have s1: "shadowColor (beforeCutout refPlatform (square 100) floatSettings) = black (18 / 100)"
    and s2: "shadowBlur (beforeCutout refPlatform (square 100) floatSettings) = 28"
    and s3: "shadowOffsetY (beforeCutout refPlatform (square 100) floatSettings) = 12"
    by blast+
  from h1 float_run h3 h4 moderate_samples(1) h5 h6 p W m g s1 s2 s3
  show ?thesis by (intro conjI)
qed

text \<open>
  The claim as stated asks for 30 pixels on each side. For a 100 by 100 cutout with the
  default solid outline (padding 12) and the Float shadow the canvas is 154 wide and the
  cutout starts at 27: 15 pixels beyond the padding.
\<close>

theorem float_margin_counterexample:
  "addStickerOutline refPlatform (Some (square 100)) floatSettings = Inr floatSticker
   \<and> shadowStyle floatSettings = Float
   \<and> outlinePadD floatSettings = 12
   \<and> cvWidth floatSticker = 154
   \<and> sideMarginX (square 100) floatSticker = 27
   \<and> sideMarginX (square 100) floatSticker - outlinePadD floatSettings \<noteq> 30"
proof -
  have h1: "shadowStyle floatSettings = Float" by (simp add: floatSettings_def)
  have m: "sideMarginX (square 100) floatSticker = 27"
    unfolding sideMarginX_def drawPos_def cx_def float_dims by (simp add: square_def)
  have ne: "sideMarginX (square 100) floatSticker - outlinePadD floatSettings \<noteq> 30"
    unfolding m float_requested by simp
  from float_run h1 float_requested(3) float_dims(1) m ne show ?thesis by (intro conjI)
qed

subsection \<open>C7: the padding is monotonic\<close>



subsection \<open>C8: determinism\<close>



subsection \<open>C9: a superseded generation is discarded\<close>

text \<open>
  Claim C9. Let the newest generation A be pending (its debounce timer armed) or in
  flight when the settings change to B. Then, whatever happens afterwards, A stays
  cancelled, the sticker URL is never A's, and A's object URL is not in the store: either
  it was never created or it was revoked in the step that created it. The sticker URL
  changes only to results of B or of later generations; the store holds the sticker URL
  and nothing else; and once B has settled with a blob, with no further settings change,
  the sticker URL is B's and its blob is the result for B's settings.
\<close>

theorem superseded_generation_discarded:
  fixes P :: Platform and cutout :: "Image option"
  assumes v: "v = exec P cutout mount evs1"
    and a: "a = length (generations v) - 1"
    and pending: "stage (generations v ! a) = Armed \<or> stage (generations v ! a) = InFlight"
    and w: "w = exec P cutout (step P cutout v (SettingsChange sB)) evs2"
  shows "cancelled (generations w ! a)
       \<and> stickerUrl w \<noteq> Some a
       \<and> objectUrls w a = None
       \<and> (stickerUrl w = stickerUrl v \<or> (\<exists>u > a. stickerUrl w = Some u))
       \<and> dom (objectUrls w) = set_option (stickerUrl w)
       \<and> ((\<forall>ev \<in> set evs2. \<not> isSettingsChange ev) \<and> stage (generations w ! Suc a) = Finished \<longrightarrow>
            (\<forall>blob. addStickerOutline P cutout sB = Inr blob \<longrightarrow>
               stickerUrl w = Some (Suc a) \<and> objectUrls w (Suc a) = Some blob))"
proof -
  let ?v' = "step P cutout v (SettingsChange sB)"
  have inv: "viewInv P cutout v" unfolding v by (rule viewInv_exec [OF viewInv_mount])
  have inv': "viewInv P cutout ?v'" using inv by (rule viewInv_step)
  have invw: "viewInv P cutout w" unfolding w using inv' by (rule viewInv_exec)
  have ne: "generations v \<noteq> []" and ref: "debounceRef v = Some (length (generations v) - 1)"
    using inv by (simp_all add: viewInv_def)
  have al: "a < length (generations v)" and Sa: "Suc a = length (generations v)"
    using ne a by simp_all
  have v': "?v' = runEffect sB v" by (simp add: step_def)
  have c': "cancelled (generations ?v' ! a)"
    unfolding v' using Sa by (simp add: runEffect_old [OF ref al])
  have fresh: "objectUrls v a = None"
  proof (cases "objectUrls v a")
    case (Some blob)
    then have "stage (generations v ! a) = Finished" using inv by (simp add: viewInv_def)
    with pending show ?thesis by simp
  qed simp
  then have u': "objectUrls ?v' a = None" unfolding v' by simp
  have al': "a < length (generations ?v')" unfolding v' using al by simp
  from exec_discarded [OF inv' al' c' u', of evs2]
  have 1: "cancelled (generations w ! a)" and 3: "objectUrls w a = None"
    unfolding w by simp_all
  have 5: "dom (objectUrls w) = set_option (stickerUrl w)" using invw by (simp add: viewInv_def)
  have 2: "stickerUrl w \<noteq> Some a"
  proof
    assume "stickerUrl w = Some a"
    then have "a \<in> dom (objectUrls w)" using 5 by simp
    with 3 show False by auto
  qed
  have bl: "Suc a \<le> length (generations ?v')" unfolding v' using Sa by simp
  have allc: "\<forall>g < Suc a. cancelled (generations ?v' ! g)"
  proof (intro allI impI)
    fix g assume g: "g < Suc a"
    show "cancelled (generations ?v' ! g)"
    proof (cases "g = a")
      case True
      then show ?thesis using c' by simp
    next
      case False
      with g Sa have "Suc g < length (generations ?v')" unfolding v' by simp
      then show ?thesis using inv' by (simp add: viewInv_def)
    qed
  qed
  have s0: "stickerUrl ?v' = stickerUrl v \<or> (\<exists>u \<ge> Suc a. stickerUrl ?v' = Some u)"
    unfolding v' by simp
  from exec_superseded [OF inv' bl allc s0, of evs2]
  have 4: "stickerUrl w = stickerUrl v \<or> (\<exists>u > a. stickerUrl w = Some u)"
    unfolding w by (simp add: Suc_le_eq)
  have len': "length (generations ?v') = Suc (Suc a)" unfolding v' using Sa by simp
  have set': "genSettings (generations ?v' ! Suc a) = sB" unfolding v' Sa by simp
  have st': "stage (generations ?v' ! Suc a) = Finished \<longrightarrow>
          (\<forall>blob. addStickerOutline P cutout sB = Inr blob \<longrightarrow>
             stickerUrl ?v' = Some (Suc a) \<and> objectUrls ?v' (Suc a) = Some blob)"
    unfolding v' Sa by simp
  have 6: "(\<forall>ev \<in> set evs2. \<not> isSettingsChange ev) \<and> stage (generations w ! Suc a) = Finished \<longrightarrow>
            (\<forall>blob. addStickerOutline P cutout sB = Inr blob \<longrightarrow>
               stickerUrl w = Some (Suc a) \<and> objectUrls w (Suc a) = Some blob)"
  proof
    assume h: "(\<forall>ev \<in> set evs2. \<not> isSettingsChange ev) \<and> stage (generations w ! Suc a) = Finished"
    then have no: "\<forall>ev \<in> set evs2. \<not> isSettingsChange ev" by simp
    from exec_current [OF inv' len' set' no st'] h
    show "\<forall>blob. addStickerOutline P cutout sB = Inr blob \<longrightarrow>
               stickerUrl w = Some (Suc a) \<and> objectUrls w (Suc a) = Some blob"
      unfolding w by simp
  qed
  from 1 2 3 4 5 6 show ?thesis by (intro conjI)
qed

theorem superseded_generation_discarded_witness:
  "stage (generations viewA ! (length (generations viewA) - 1)) = InFlight
   \<and> cancelled (generations viewB ! (length (generations viewA) - 1))
   \<and> stickerUrl viewB \<noteq> Some (length (generations viewA) - 1)
   \<and> objectUrls viewB (length (generations viewA) - 1) = None
   \<and> dom (objectUrls viewB) = set_option (stickerUrl viewB)
   \<and> stickerUrl viewB = Some (Suc (length (generations viewA) - 1))
   \<and> objectUrls viewB (Suc (length (generations viewA) - 1)) = Some wobblySticker"
proof -
  let ?a = "length (generations viewA) - 1"
  have h1: "stage (generations viewA ! ?a) = Armed \<or> stage (generations viewA ! ?a) = InFlight"
    by (simp add: viewA_generations)
  have fl: "stage (generations viewA ! ?a) = InFlight" by (simp add: viewA_generations)
  note t = superseded_generation_discarded [OF viewA_def refl h1 viewB_def]
  have no: "\<forall>ev \<in> set [Settles 0, TimerFires 1, Settles 1]. \<not> isSettingsChange ev" by simp
  have fin: "stage (generations viewB ! Suc ?a) = Finished"
    by (simp add: viewA_generations viewB_generations)
  from t no fin wobbly_run
  have "stickerUrl viewB = Some (Suc ?a) \<and> objectUrls viewB (Suc ?a) = Some wobblySticker"
    by blast
  with t fl show ?thesis by blast
qed

subsection \<open>C10: no settings value makes the generation fail\<close>




end
